theory Spec2Isabelle
  imports Main "HOL-Library.Sublist"
begin

section \<open>JavaScript strings\<close>

text \<open>
  A JavaScript string is a sequence of UTF-16 code units. The model keeps the code units as
  natural numbers, so that the bullet character U+2022 and the Unicode white space of
  \<^verbatim>\<open>\s\<close> and \<^verbatim>\<open>trim()\<close> are what the source has. \<open>js\<close> turns an ASCII literal into its
  code units.
\<close>

type_synonym jsstring = "nat list"

definition js :: "string \<Rightarrow> jsstring" where
  "js s = map of_char s"

text \<open>White space and line terminators: the set of \<^verbatim>\<open>\s\<close> and of \<^verbatim>\<open>String.prototype.trim\<close>.\<close>

definition is_space :: "nat \<Rightarrow> bool" where
  "is_space x = (x \<in> {9, 10, 11, 12, 13, 32, 160, 5760, 8232, 8233, 8239, 8287, 12288, 65279}
                \<or> (8192 \<le> x \<and> x \<le> 8202))"

definition is_digit :: "nat \<Rightarrow> bool" where
  "is_digit x = (48 \<le> x \<and> x \<le> 57)"

definition is_upper :: "nat \<Rightarrow> bool" where
  "is_upper x = (65 \<le> x \<and> x \<le> 90)"

definition is_lower :: "nat \<Rightarrow> bool" where
  "is_lower x = (97 \<le> x \<and> x \<le> 122)"

definition is_alpha :: "nat \<Rightarrow> bool" where
  "is_alpha x = (is_upper x \<or> is_lower x)"

text \<open>\<^verbatim>\<open>\w\<close> is \<^verbatim>\<open>[A-Za-z0-9_]\<close>.\<close>

definition is_word :: "nat \<Rightarrow> bool" where
  "is_word x = (is_alpha x \<or> is_digit x \<or> x = 95)"

text \<open>\<^verbatim>\<open>.\<close> without the \<^verbatim>\<open>s\<close> flag: any code unit but the four line terminators.\<close>

definition is_dot :: "nat \<Rightarrow> bool" where
  "is_dot x = (x \<notin> {10, 13, 8232, 8233})"

definition not_nl :: "nat \<Rightarrow> bool" where
  "not_nl x = (x \<noteq> 10)"

definition any_char :: "nat \<Rightarrow> bool" where
  "any_char x = True"

text \<open>
  Canonicalisation of the \<^verbatim>\<open>i\<close> flag (no \<^verbatim>\<open>u\<close> flag): a code unit is compared by its
  upper case, and a code unit from 128 on never canonicalises to an ASCII one. Every
  pattern character of the source is ASCII, so only the ASCII letters are folded.
\<close>

definition canon :: "nat \<Rightarrow> nat" where
  "canon x = (if is_lower x then x - 32 else x)"

definition js_trim :: "jsstring \<Rightarrow> jsstring" where
  "js_trim s = rev (dropWhile is_space (rev (dropWhile is_space s)))"

fun js_includes :: "jsstring \<Rightarrow> jsstring \<Rightarrow> bool" where
  "js_includes [] w = (w = [])"
| "js_includes (x # xs) w = (prefix w (x # xs) \<or> js_includes xs w)"

text \<open>\<^verbatim>\<open>s.replace(w, rep)\<close> with a string pattern: the first occurrence only.\<close>

fun replace_str :: "jsstring \<Rightarrow> jsstring \<Rightarrow> jsstring \<Rightarrow> jsstring" where
  "replace_str [] w rep = (if w = [] then rep else [])"
| "replace_str (x # xs) w rep =
     (if prefix w (x # xs) then rep @ drop (length w) (x # xs) else x # replace_str xs w rep)"

text \<open>\<^verbatim>\<open>s.split(d)\<close> for a one-character separator.\<close>

fun js_split :: "nat \<Rightarrow> jsstring \<Rightarrow> jsstring list" where
  "js_split d [] = [[]]"
| "js_split d (x # xs) =
     (if x = d then [] # js_split d xs
      else (case js_split d xs of [] \<Rightarrow> [[x]] | l # ls \<Rightarrow> (x # l) # ls))"

section \<open>Regular expressions with backtracking\<close>

text \<open>
  The parser of the source is a set of regular expressions. They are kept as syntax trees
  and run by a matcher that follows the backtracking order of ECMAScript: \<open>m r c p a\<close>
  lists, in the order in which the engine would try them, all ways in which \<open>r\<close> matches a
  prefix of the remaining input \<open>a\<close> at position \<open>p\<close>; each way gives the capture of group 1
  (\<open>c\<close> before the match), the position and the input that is left. The first element is
  the match the engine reports. An iteration of a star that consumes nothing is rejected,
  as in the standard. No expression of the source has more than one capturing group, and
  none has a group inside a repetition.
\<close>

datatype quant = Greedy | Lazy

datatype regex =
    Chr "nat \<Rightarrow> bool"
  | Eps
  | Bol
  | Eol
  | Seq regex regex
  | Alt regex regex
  | Star quant regex
  | Group regex
  | Look regex

type_synonym mres = "jsstring option \<times> nat \<times> jsstring"

function m :: "regex \<Rightarrow> jsstring option \<Rightarrow> nat \<Rightarrow> jsstring \<Rightarrow> mres list" where
  "m (Chr P) c p a = (case a of [] \<Rightarrow> [] | x # xs \<Rightarrow> if P x then [(c, Suc p, xs)] else [])"
| "m Eps c p a = [(c, p, a)]"
| "m Bol c p a = (if p = 0 then [(c, p, a)] else [])"
| "m Eol c p a = (if a = [] then [(c, p, a)] else [])"
| "m (Seq r1 r2) c p a = concat (map (\<lambda>(c', p', a'). m r2 c' p' a') (m r1 c p a))"
| "m (Alt r1 r2) c p a = m r1 c p a @ m r2 c p a"
| "m (Star Greedy r) c p a =
     concat (map (\<lambda>(c', p', a'). if length a' < length a then m (Star Greedy r) c' p' a' else [])
                 (m r c p a)) @ [(c, p, a)]"
| "m (Star Lazy r) c p a =
     (c, p, a) # concat (map (\<lambda>(c', p', a'). if length a' < length a then m (Star Lazy r) c' p' a' else [])
                 (m r c p a))"
| "m (Group r) c p a =
     map (\<lambda>(c', p', a'). (Some (take (length a - length a') a), p', a')) (m r c p a)"
| "m (Look r) c p a = (case m r c p a of [] \<Rightarrow> [] | (c', p', a') # others \<Rightarrow> [(c', p, a)])"
  by pat_completeness auto
termination
  by (relation "measures [\<lambda>(r, c, p, a). size r, \<lambda>(r, c, p, a). length a]") auto

declare m.simps(7) [simp del] m.simps(8) [simp del]

text \<open>A literal, a literal under the \<^verbatim>\<open>i\<close> flag, \<^verbatim>\<open>r?\<close>, \<^verbatim>\<open>r+\<close>, sequences and alternatives.\<close>

definition lit :: "jsstring \<Rightarrow> regex" where
  "lit w = foldr (\<lambda>x r. Seq (Chr (\<lambda>y. y = x)) r) w Eps"

definition lit_i :: "jsstring \<Rightarrow> regex" where
  "lit_i w = foldr (\<lambda>x r. Seq (Chr (\<lambda>y. canon y = canon x)) r) w Eps"

definition opt :: "regex \<Rightarrow> regex" where
  "opt r = Alt r Eps"

definition plus :: "regex \<Rightarrow> regex" where
  "plus r = Seq r (Star Greedy r)"

fun seqs :: "regex list \<Rightarrow> regex" where
  "seqs [] = Eps"
| "seqs [r] = r"
| "seqs (r # rs) = Seq r (seqs rs)"

fun alts :: "regex list \<Rightarrow> regex" where
  "alts [] = Eps"
| "alts [r] = r"
| "alts (r # rs) = Alt r (alts rs)"

text \<open>
  The result of \<^verbatim>\<open>RegExp.prototype.exec\<close>: where the match starts, the matched text
  (element 0), group 1 (\<open>None\<close> is \<^verbatim>\<open>undefined\<close>) and the input after the match.
\<close>

record rmatch =
  index :: nat
  matched :: jsstring
  group1 :: "jsstring option"
  rest :: jsstring

text \<open>The search tries every start position from the left and takes the first match there.\<close>

fun exec_from :: "regex \<Rightarrow> nat \<Rightarrow> jsstring \<Rightarrow> rmatch option" where
  "exec_from r p a =
     (case m r None p a of
        (c, p', a') # others \<Rightarrow>
          Some \<lparr>index = p, matched = take (length a - length a') a, group1 = c, rest = a'\<rparr>
      | [] \<Rightarrow> (case a of [] \<Rightarrow> None | x # xs \<Rightarrow> exec_from r (Suc p) xs))"

text \<open>\<^verbatim>\<open>s.match(r)\<close> for a pattern without the \<^verbatim>\<open>g\<close> flag.\<close>

definition js_match :: "regex \<Rightarrow> jsstring \<Rightarrow> rmatch option" where
  "js_match r s = exec_from r 0 s"

text \<open>
  \<^verbatim>\<open>s.replace(r, rep)\<close> for a pattern without the \<^verbatim>\<open>g\<close> flag; no replacement string of
  the source contains \<^verbatim>\<open>$\<close>.
\<close>

definition js_replace :: "regex \<Rightarrow> jsstring \<Rightarrow> jsstring \<Rightarrow> jsstring" where
  "js_replace r rep s =
     (case js_match r s of None \<Rightarrow> s | Some mt \<Rightarrow> take (index mt) s @ rep @ rest mt)"

lemma m_suffix:
  "(c', p', a') \<in> set (m r c p a) \<Longrightarrow> suffix a' a \<and> p' + length a' = p + length a"
proof (induction r c p a arbitrary: c' p' a' rule: m.induct)
  case (1 P c p a)
  then show ?case by (auto split: list.splits if_splits simp: suffix_Cons)
next
  case (2 c p a) then show ?case by simp
next
  case (3 c p a) then show ?case by (simp split: if_splits)
next
  case (4 c p a) then show ?case by (simp split: if_splits)
next
  case (5 r1 r2 c p a)
  from "5.prems" obtain c1 p1 a1 where
    h1: "(c1, p1, a1) \<in> set (m r1 c p a)" and h2: "(c', p', a') \<in> set (m r2 c1 p1 a1)"
    by auto
  from "5.IH"(1)[OF h1] "5.IH"(2)[OF h1 refl refl h2] show ?case
    using suffix_order.trans by fastforce
next
  case (6 r1 r2 c p a) then show ?case by auto
next
  case (7 r c p a)
  from "7.prems" consider "(c', p', a') = (c, p, a)"
    | c1 p1 a1 where "(c1, p1, a1) \<in> set (m r c p a)" "length a1 < length a"
        "(c', p', a') \<in> set (m (Star Greedy r) c1 p1 a1)"
    by (subst (asm) m.simps) (auto split: if_splits)
  then show ?case
  proof cases
    case 1 then show ?thesis by simp
  next
    case 2
    from "7.IH"(1)[OF 2(1)] "7.IH"(2)[OF 2(1) refl refl 2(2) 2(3)] show ?thesis
      using suffix_order.trans by fastforce
  qed
next
  case (8 r c p a)
  from "8.prems" consider "(c', p', a') = (c, p, a)"
    | c1 p1 a1 where "(c1, p1, a1) \<in> set (m r c p a)" "length a1 < length a"
        "(c', p', a') \<in> set (m (Star Lazy r) c1 p1 a1)"
    by (subst (asm) m.simps) (auto split: if_splits)
  then show ?case
  proof cases
    case 1 then show ?thesis by simp
  next
    case 2
    from "8.IH"(1)[OF 2(1)] "8.IH"(2)[OF 2(1) refl refl 2(2) 2(3)] show ?thesis
      using suffix_order.trans by fastforce
  qed
next
  case (9 r c p a)
  from "9.prems" obtain c1 where "(c1, p', a') \<in> set (m r c p a)" by auto
  from "9.IH"[OF this] show ?case .
next
  case (10 r c p a)
  then show ?case by (auto split: list.splits)
qed

lemma exec_from_rest:
  "exec_from r p a = Some mt \<Longrightarrow>
     suffix (rest mt) a \<and> length (matched mt) + length (rest mt) \<le> length a
     \<and> (matched mt \<noteq> [] \<longrightarrow> length (rest mt) < length a)"
proof (induction r p a rule: exec_from.induct)
  case (1 r p a)
  show ?case
  proof (cases "m r None p a")
    case Nil
    with "1.prems" obtain x xs where a: "a = x # xs" and e: "exec_from r (Suc p) xs = Some mt"
      by (auto split: list.splits)
    from "1.IH"[OF Nil a e] show ?thesis
      by (auto simp: a suffix_Cons)
  next
    case (Cons res others)
    obtain c' p' a' where res: "res = (c', p', a')" by (cases res)
    have "(c', p', a') \<in> set (m r None p a)" by (simp add: Cons res)
    from m_suffix[OF this] Cons res "1.prems" show ?thesis
      by (auto simp: suffix_def)
  qed
qed

declare exec_from.simps [simp del]

text \<open>
  \<^verbatim>\<open>s.match(r)\<close> for a pattern with the \<^verbatim>\<open>g\<close> flag: the matched texts from left to right,
  each search starting where the last match ended (one code unit further after an empty
  match); \<^verbatim>\<open>null\<close> when there is none.
\<close>

function match_all :: "regex \<Rightarrow> nat \<Rightarrow> jsstring \<Rightarrow> jsstring list" where
  "match_all r p a =
     (case exec_from r p a of
        None \<Rightarrow> []
      | Some mt \<Rightarrow>
          if matched mt \<noteq> []
          then matched mt # match_all r (index mt + length (matched mt)) (rest mt)
          else (case rest mt of [] \<Rightarrow> [matched mt]
                | x # xs \<Rightarrow> matched mt # match_all r (Suc (index mt)) xs))"
  by pat_completeness auto
termination
proof (relation "measure (\<lambda>(r, p, a). length a)", goal_cases)
  case 1 show ?case by simp
next
  case (2 r p a mt)
  then show ?case using exec_from_rest[of r p a mt] by simp
next
  case (3 r p a mt x xs)
  then show ?case using exec_from_rest[of r p a mt] by simp
qed

declare match_all.simps [simp del]

definition js_match_all :: "regex \<Rightarrow> jsstring \<Rightarrow> jsstring list option" where
  "js_match_all r s = (case match_all r 0 s of [] \<Rightarrow> None | ms \<Rightarrow> Some ms)"

text \<open>\<^verbatim>\<open>s.replace(r, rep)\<close> for a pattern with the \<^verbatim>\<open>g\<close> flag: every match is replaced.\<close>

function replace_all :: "regex \<Rightarrow> jsstring \<Rightarrow> nat \<Rightarrow> jsstring \<Rightarrow> jsstring" where
  "replace_all r rep p a =
     (case exec_from r p a of
        None \<Rightarrow> a
      | Some mt \<Rightarrow>
          take (index mt - p) a @ rep @
          (if matched mt \<noteq> []
           then replace_all r rep (index mt + length (matched mt)) (rest mt)
           else (case rest mt of [] \<Rightarrow> []
                 | x # xs \<Rightarrow> x # replace_all r rep (Suc (index mt)) xs)))"
  by pat_completeness auto
termination
proof (relation "measure (\<lambda>(r, rep, p, a). length a)", goal_cases)
  case 1 show ?case by simp
next
  case (2 r rep p a mt)
  then show ?case using exec_from_rest[of r p a mt] by simp
next
  case (3 r rep p a mt x xs)
  then show ?case using exec_from_rest[of r p a mt] by simp
qed

declare replace_all.simps [simp del]

definition js_replace_all :: "regex \<Rightarrow> jsstring \<Rightarrow> jsstring \<Rightarrow> jsstring" where
  "js_replace_all r rep s = replace_all r rep 0 s"

section \<open>The response parser of the solution stage\<close>

text \<open>
  \<^verbatim>\<open>generateSolutionsHelper\<close>, from the line that reads \<^verbatim>\<open>responseContent\<close> on. The
  patterns are those of the source, in its order.
\<close>

definition fence :: jsstring where
  "fence = [96, 96, 96]"

text \<open>\<^verbatim>\<open>/```(?:\w+)?\s*([\s\S]*?)```/\<close>\<close>

definition codeRegex :: regex where
  "codeRegex = seqs [lit fence, opt (plus (Chr is_word)), Star Greedy (Chr is_space),
                     Group (Star Lazy (Chr any_char)), lit fence]"

text \<open>\<^verbatim>\<open>/(?:Thoughts:|Key Insights:|Reasoning:|Approach:)([\s\S]*?)(?:Time complexity:|$)/i\<close>\<close>

definition thoughtsRegex :: regex where
  "thoughtsRegex =
     seqs [alts [lit_i (js ''Thoughts:''), lit_i (js ''Key Insights:''),
                 lit_i (js ''Reasoning:''), lit_i (js ''Approach:'')],
           Group (Star Lazy (Chr any_char)),
           alts [lit_i (js ''Time complexity:''), Eol]]"

text \<open>\<^verbatim>\<open>(?:[-*\<bullet>]|\d+\.)\<close>, the bullet being U+2022.\<close>

definition bullet :: regex where
  "bullet = Alt (Chr (\<lambda>x. x \<in> {45, 42, 8226})) (Seq (plus (Chr is_digit)) (Chr (\<lambda>x. x = 46)))"

text \<open>\<^verbatim>\<open>/(?:^|\n)\s*(?:[-*\<bullet>]|\d+\.)\s*(.*)/g\<close>\<close>

definition bulletPointsRegex :: regex where
  "bulletPointsRegex =
     seqs [Alt Bol (Chr (\<lambda>x. x = 10)), Star Greedy (Chr is_space), bullet,
           Star Greedy (Chr is_space), Group (Star Greedy (Chr is_dot))]"

text \<open>\<^verbatim>\<open>/^\s*(?:[-*\<bullet>]|\d+\.)\s*/\<close>\<close>

definition bulletPrefixRegex :: regex where
  "bulletPrefixRegex = seqs [Bol, Star Greedy (Chr is_space), bullet, Star Greedy (Chr is_space)]"

text \<open>\<^verbatim>\<open>[^\n]+(?:\n[^\n]+)*?\<close>\<close>

definition lines_lazy :: regex where
  "lines_lazy = Seq (plus (Chr not_nl)) (Star Lazy (Seq (Chr (\<lambda>x. x = 10)) (plus (Chr not_nl))))"

text \<open>\<^verbatim>\<open>/Time complexity:?\s*([^\n]+(?:\n[^\n]+)*?)(?=\n\s*(?:Space complexity|$))/i\<close>\<close>

definition timeComplexityPattern :: regex where
  "timeComplexityPattern =
     seqs [lit_i (js ''Time complexity''), opt (Chr (\<lambda>x. x = 58)), Star Greedy (Chr is_space),
           Group lines_lazy,
           Look (seqs [Chr (\<lambda>x. x = 10), Star Greedy (Chr is_space),
                       Alt (lit_i (js ''Space complexity'')) Eol])]"

text \<open>
  \<^verbatim>\<open>/Space complexity:?\s*([^\n]+(?:\n[^\n]+)*?)(?=\n\s*(?:[A-Z]|$))/i\<close>; under the \<^verbatim>\<open>i\<close>
  flag \<^verbatim>\<open>[A-Z]\<close> is any ASCII letter.
\<close>

definition spaceComplexityPattern :: regex where
  "spaceComplexityPattern =
     seqs [lit_i (js ''Space complexity''), opt (Chr (\<lambda>x. x = 58)), Star Greedy (Chr is_space),
           Group lines_lazy,
           Look (seqs [Chr (\<lambda>x. x = 10), Star Greedy (Chr is_space),
                       Alt (Chr is_alpha) Eol])]"

text \<open>\<^verbatim>\<open>/O\([^)]+\)/i\<close>: under the \<^verbatim>\<open>i\<close> flag a lower-case \<^verbatim>\<open>o\<close> starts a token too.\<close>

definition bigO :: regex where
  "bigO = seqs [Chr (\<lambda>x. canon x = 79), Chr (\<lambda>x. x = 40), plus (Chr (\<lambda>x. x \<noteq> 41)),
                Chr (\<lambda>x. x = 41)]"

record solution =
  code :: jsstring
  thoughts :: "jsstring list"
  time_complexity :: jsstring
  space_complexity :: jsstring

text \<open>\<^verbatim>\<open>const code = codeMatch ? codeMatch[1].trim() : responseContent\<close>\<close>

definition extract_code :: "jsstring \<Rightarrow> jsstring" where
  "extract_code responseContent =
     (case js_match codeRegex responseContent of
        Some codeMatch \<Rightarrow> js_trim (case group1 codeMatch of Some g \<Rightarrow> g | None \<Rightarrow> [])
      | None \<Rightarrow> responseContent)"

text \<open>
  The \<^verbatim>\<open>thoughts\<close> array before the final default: empty unless the heading pattern
  matches with a non-empty group; then the bullet items if there are any, else the
  non-empty trimmed lines. \<^verbatim>\<open>filter(Boolean)\<close> drops the empty strings.
\<close>

definition extract_thoughts :: "jsstring \<Rightarrow> jsstring list" where
  "extract_thoughts responseContent =
     (case js_match thoughtsRegex responseContent of
        None \<Rightarrow> []
      | Some thoughtsMatch \<Rightarrow>
          (case group1 thoughtsMatch of
             None \<Rightarrow> []
           | Some g \<Rightarrow>
               if g = [] then []
               else (case js_match_all bulletPointsRegex g of
                       Some bulletPoints \<Rightarrow>
                         filter (\<lambda>t. t \<noteq> [])
                           (map (\<lambda>point. js_trim (js_replace bulletPrefixRegex [] point)) bulletPoints)
                     | None \<Rightarrow> filter (\<lambda>t. t \<noteq> []) (map js_trim (js_split 10 g)))))"

definition default_thought :: jsstring where
  "default_thought = js ''Solution approach based on efficiency and readability''"

definition default_time :: jsstring where
  "default_time = js ''O(n) - Linear time complexity because we only iterate through the array once. Each element is processed exactly one time, and the hashmap lookups are O(1) operations.''"

definition default_space :: jsstring where
  "default_space = js ''O(n) - Linear space complexity because we store elements in the hashmap. In the worst case, we might need to store all elements before finding the solution pair.''"

text \<open>
  What the source does with a captured span (the same code for time and for space): trim
  it; without a Big-O token prefix \<^verbatim>\<open>O(n) - \<close>; with a token but neither \<^verbatim>\<open>-\<close> nor
  \<^verbatim>\<open>because\<close>, put the token first and the rest, trimmed, after \<^verbatim>\<open> - \<close>.
\<close>

definition format_complexity :: "jsstring \<Rightarrow> jsstring" where
  "format_complexity captured =
     (let c = js_trim captured in
      case js_match bigO c of
        None \<Rightarrow> js ''O(n) - '' @ c
      | Some notationMatch \<Rightarrow>
          if \<not> js_includes c (js ''-'') \<and> \<not> js_includes c (js ''because'')
          then matched notationMatch @ js '' - '' @ js_trim (replace_str c (matched notationMatch) [])
          else c)"

text \<open>The span a complexity pattern captures: \<^verbatim>\<open>timeMatch && timeMatch[1]\<close>.\<close>

definition captured_span :: "regex \<Rightarrow> jsstring \<Rightarrow> jsstring option" where
  "captured_span pattern responseContent =
     (case js_match pattern responseContent of
        None \<Rightarrow> None
      | Some mt \<Rightarrow> (case group1 mt of None \<Rightarrow> None | Some g \<Rightarrow> if g = [] then None else Some g))"

definition complexity_of :: "regex \<Rightarrow> jsstring \<Rightarrow> jsstring \<Rightarrow> jsstring" where
  "complexity_of pattern dflt responseContent =
     (case captured_span pattern responseContent of
        None \<Rightarrow> dflt
      | Some g \<Rightarrow> format_complexity g)"

definition parse_solution :: "jsstring \<Rightarrow> solution" where
  "parse_solution responseContent =
     (let ts = extract_thoughts responseContent in
      \<lparr>code = extract_code responseContent,
       thoughts = (if length ts > 0 then ts else [default_thought]),
       time_complexity = complexity_of timeComplexityPattern default_time responseContent,
       space_complexity = complexity_of spaceComplexityPattern default_space responseContent\<rparr>)"

section \<open>The response parser of the debug stage\<close>

text \<open>\<^verbatim>\<open>/```(?:[a-zA-Z]+)?([\s\S]*?)```/\<close>\<close>

definition debugCodeRegex :: regex where
  "debugCodeRegex = seqs [lit fence, opt (plus (Chr is_alpha)),
                          Group (Star Lazy (Chr any_char)), lit fence]"

text \<open>\<^verbatim>\<open>/(?:^|\n)[ ]*(?:[-*\<bullet>]|\d+\.)[ ]+([^\n]+)/g\<close> and \<^verbatim>\<open>/^[ ]*(?:[-*\<bullet>]|\d+\.)[ ]+/\<close>\<close>

definition debugBulletRegex :: regex where
  "debugBulletRegex =
     seqs [Alt Bol (Chr (\<lambda>x. x = 10)), Star Greedy (Chr (\<lambda>x. x = 32)), bullet,
           plus (Chr (\<lambda>x. x = 32)), Group (plus (Chr not_nl))]"

definition debugBulletPrefixRegex :: regex where
  "debugBulletPrefixRegex =
     seqs [Bol, Star Greedy (Chr (\<lambda>x. x = 32)), bullet, plus (Chr (\<lambda>x. x = 32))]"

record debug_payload =
  dbg_code :: jsstring
  debug_analysis :: jsstring
  dbg_thoughts :: "jsstring list"
  dbg_time_complexity :: jsstring
  dbg_space_complexity :: jsstring

definition extract_debug_code :: "jsstring \<Rightarrow> jsstring" where
  "extract_debug_code debugContent =
     (case js_match debugCodeRegex debugContent of
        None \<Rightarrow> js ''// Debug mode - see analysis below''
      | Some codeMatch \<Rightarrow>
          (case group1 codeMatch of
             None \<Rightarrow> js ''// Debug mode - see analysis below''
           | Some g \<Rightarrow> if g = [] then js ''// Debug mode - see analysis below'' else js_trim g))"

definition format_debug_content :: "jsstring \<Rightarrow> jsstring" where
  "format_debug_content debugContent =
     (if \<not> js_includes debugContent (js ''# '') \<and> \<not> js_includes debugContent (js ''## '')
      then
        js_replace (alts [lit_i (js ''explanation''), lit_i (js ''detailed analysis'')])
          (js ''## Explanation'')
        (js_replace (alts [lit_i (js ''optimizations''), lit_i (js ''performance improvements'')])
          (js ''## Optimizations'')
        (js_replace (alts [lit_i (js ''code improvements''), lit_i (js ''improvements''),
                           lit_i (js ''suggested changes'')])
          (js ''## Code Improvements'')
        (js_replace (alts [lit_i (js ''issues identified''), lit_i (js ''problems found''),
                           lit_i (js ''bugs found'')])
          (js ''## Issues Identified'') debugContent)))
      else debugContent)"

definition parse_debug :: "jsstring \<Rightarrow> debug_payload" where
  "parse_debug debugContent =
     (let formattedDebugContent = format_debug_content debugContent in
      \<lparr>dbg_code = extract_debug_code debugContent,
       debug_analysis = formattedDebugContent,
       dbg_thoughts =
         (case js_match_all debugBulletRegex formattedDebugContent of
            Some bulletPoints \<Rightarrow>
              take 5 (map (\<lambda>point. js_trim (js_replace debugBulletPrefixRegex [] point)) bulletPoints)
          | None \<Rightarrow> [js ''Debug analysis based on your screenshots'']),
       dbg_time_complexity = js ''N/A - Debug mode'',
       dbg_space_complexity = js ''N/A - Debug mode''\<rparr>)"

text \<open>The equations that run the matcher on a concrete input.\<close>

lemmas regex_eval = js_match_def exec_from.simps m.simps(7) m.simps(8) lit_def lit_i_def opt_def plus_def
  is_space_def is_word_def is_alpha_def is_upper_def is_lower_def is_digit_def is_dot_def
  not_nl_def any_char_def canon_def js_trim_def fence_def js_def

section \<open>Session state, collaborators and observable actions\<close>

text \<open>
  \<^verbatim>\<open>problemInfo\<close> is whatever \<^verbatim>\<open>JSON.parse\<close> returned, or \<^verbatim>\<open>null\<close>; the source
  tests it with \<^verbatim>\<open>!problemInfo\<close>, so the model keeps JSON values and their truthiness.
  Only whether a number is zero is ever observed, so numbers are integers here.
\<close>

datatype json =
    JNull
  | JBool bool
  | JNum int
  | JStr jsstring
  | JArr "json list"
  | JObj "(jsstring \<times> json) list"

fun truthy :: "json \<Rightarrow> bool" where
  "truthy JNull = False"
| "truthy (JBool b) = b"
| "truthy (JNum n) = (n \<noteq> 0)"
| "truthy (JStr s) = (s \<noteq> [])"
| "truthy (JArr xs) = True"
| "truthy (JObj kvs) = True"

text \<open>
  \<^verbatim>\<open>config.apiProvider\<close>: the three providers the source compares with, and any other
  value. An unset model name or language is the empty string (both are falsy).
\<close>

datatype provider = OpenAI | Gemini | Anthropic | OtherProvider

record config =
  apiKey :: jsstring
  apiProvider :: provider
  extractionModel :: jsstring
  solutionModel :: jsstring
  debuggingModel :: jsstring
  language :: jsstring

datatype view = Queue | Solutions

datatype modelType = Extraction | Solution | Debugging

text \<open>
  The three prompt templates are kept by what they embed (the target language and the
  problem), not as text: no claim reads a prompt.
\<close>

datatype prompt =
    ExtractionPrompt jsstring
  | SolutionPrompt json jsstring
  | DebugPrompt json jsstring

record request =
  req_model :: jsstring
  req_type :: modelType
  req_prompt :: prompt
  req_images :: "jsstring list"

text \<open>
  What a vendor call can throw, by the tests of the \<^verbatim>\<open>catch\<close> block of \<^verbatim>\<open>callAIModel\<close>:
  an API error of either SDK with its HTTP status (\<^verbatim>\<open>undefined\<close> is \<open>None\<close>), an axios
  cancellation, any other \<^verbatim>\<open>Error\<close> with its message, or a value that is no \<^verbatim>\<open>Error\<close>.
\<close>

datatype js_error =
    ClaudeAPIError "nat option"
  | OpenAiAPIError "nat option"
  | AxiosCancel
  | Error jsstring
  | NonError

record screenshot =
  shot_path :: jsstring
  shot_preview :: jsstring
  shot_data :: jsstring

datatype 'a result = Success 'a | Failure jsstring

datatype ai_result = AISuccess jsstring | AIFailure jsstring

datatype event =
    INITIAL_START
  | NO_SCREENSHOTS
  | PROBLEM_EXTRACTED json
  | SOLUTION_SUCCESS solution
  | INITIAL_SOLUTION_ERROR jsstring
  | API_KEY_INVALID
  | DEBUG_START
  | DEBUG_SUCCESS
  | DEBUG_ERROR jsstring

datatype flow = MainFlow | DebugFlow

text \<open>
  What a run does to its collaborators, in order. \<open>Emit ev d\<close> is a call of
  \<^verbatim>\<open>sendProcessingEvent\<close> and \<open>Status msg n d\<close> a call of \<^verbatim>\<open>updateProcessingStatus\<close>;
  \<open>d\<close> tells whether the window guard of the call let it through to
  \<^verbatim>\<open>webContents.send\<close>. \<open>VendorCall\<close> is a request to a provider, \<open>Abort\<close> the \<^verbatim>\<open>abort()\<close>
  of a flow's controller.
\<close>

datatype action =
    Emit event bool
  | Status jsstring nat bool
  | SetView view
  | ClearExtraScreenshotQueue
  | VendorCall provider request
  | Abort flow

text \<open>
  The helper's own fields and the session state behind \<^verbatim>\<open>deps\<close> and the screenshot
  helper. A client or a controller is \<^verbatim>\<open>null\<close> or set; the queues are the path lists the
  screenshot helper returns.
\<close>

record state =
  openaiClient :: bool
  geminiApiKey :: "jsstring option"
  anthropicClient :: bool
  currentProcessingAbortController :: "unit option"
  currentExtraProcessingAbortController :: "unit option"
  view :: view
  problemInfo :: json
  hasDebugged :: bool
  screenshotQueue :: "jsstring list"
  extraScreenshotQueue :: "jsstring list"
  trace :: "action list"

datatype window = Window (isDestroyed: bool)

text \<open>
  What the run reads from outside, fixed for the run: the main window, the configuration
  snapshot, the file system, the two values read from the page, \<^verbatim>\<open>JSON.parse\<close> (\<open>Inl\<close> is
  the message of its \<^verbatim>\<open>SyntaxError\<close>) and the three vendors. A vendor answers a request
  with the text fields of its response, in the response's shape, or throws:
  \<^verbatim>\<open>choices[i].message.content\<close> for the chat completion,
  \<^verbatim>\<open>candidates[i].content.parts[j].text\<close> for the REST call, \<^verbatim>\<open>content[i].text\<close> for the
  messages API (\<open>None\<close> is \<^verbatim>\<open>null\<close> or \<^verbatim>\<open>undefined\<close>).
\<close>

record env =
  mainWindow :: "window option"
  config :: config
  existsSync :: "jsstring \<Rightarrow> bool"
  readFileSync :: "jsstring \<Rightarrow> jsstring option"
  getImagePreview :: "jsstring \<Rightarrow> jsstring option"
  isInitialized :: "nat \<Rightarrow> bool"
  windowLanguage :: "jsstring option"
  json_parse :: "jsstring \<Rightarrow> jsstring + json"
  openai_create :: "request \<Rightarrow> js_error + jsstring option list"
  gemini_post :: "request \<Rightarrow> js_error + jsstring option list list"
  anthropic_create :: "request \<Rightarrow> js_error + jsstring option list"

definition window_live :: "env \<Rightarrow> bool" where
  "window_live e = (case mainWindow e of None \<Rightarrow> False | Some w \<Rightarrow> \<not> isDestroyed w)"

definition sendProcessingEvent :: "env \<Rightarrow> event \<Rightarrow> state \<Rightarrow> state" where
  "sendProcessingEvent e ev st = st\<lparr>trace := trace st @ [Emit ev (window_live e)]\<rparr>"

definition updateProcessingStatus :: "env \<Rightarrow> jsstring \<Rightarrow> nat \<Rightarrow> state \<Rightarrow> state" where
  "updateProcessingStatus e message progress st =
     st\<lparr>trace := trace st @ [Status message progress (window_live e)]\<rparr>"

definition setView :: "view \<Rightarrow> state \<Rightarrow> state" where
  "setView v st = st\<lparr>view := v, trace := trace st @ [SetView v]\<rparr>"

definition clearExtraScreenshotQueue :: "state \<Rightarrow> state" where
  "clearExtraScreenshotQueue st =
     st\<lparr>extraScreenshotQueue := [], trace := trace st @ [ClearExtraScreenshotQueue]\<rparr>"

section \<open>Client initialisation and target language\<close>

definition initializeAIClient :: "env \<Rightarrow> state \<Rightarrow> state" where
  "initializeAIClient e st =
     (let st0 = st\<lparr>openaiClient := False, geminiApiKey := None, anthropicClient := False\<rparr>
      in if apiKey (config e) = [] then st0
         else (case apiProvider (config e) of
                 OpenAI \<Rightarrow> st0\<lparr>openaiClient := True\<rparr>
               | Gemini \<Rightarrow> st0\<lparr>geminiApiKey := Some (apiKey (config e))\<rparr>
               | Anthropic \<Rightarrow> st0\<lparr>anthropicClient := True\<rparr>
               | OtherProvider \<Rightarrow> st0))"

text \<open>
  \<^verbatim>\<open>waitForInitialization\<close> polls the page up to 50 times; \<open>False\<close> is its
  \<^verbatim>\<open>throw new Error("App failed to initialize after 5 seconds")\<close>.
\<close>

function waitForInitialization :: "(nat \<Rightarrow> bool) \<Rightarrow> nat \<Rightarrow> bool" where
  "waitForInitialization poll attempts =
     (if attempts < 50
      then (if poll attempts then True else waitForInitialization poll (Suc attempts))
      else False)"
  by pat_completeness auto
termination
  by (relation "measure (\<lambda>(poll, attempts). 50 - attempts)") auto

declare waitForInitialization.simps [simp del]

definition getLanguage :: "env \<Rightarrow> jsstring" where
  "getLanguage e =
     (if language (config e) \<noteq> [] then language (config e)
      else (case mainWindow e of
              None \<Rightarrow> js ''python''
            | Some w \<Rightarrow>
                if waitForInitialization (isInitialized e) 0
                then (case windowLanguage e of Some l \<Rightarrow> l | None \<Rightarrow> js ''python'')
                else js ''python''))"

section \<open>The provider adapters\<close>

definition no_response_content :: jsstring where
  "no_response_content = js ''No response content''"

text \<open>The message of the \<^verbatim>\<open>TypeError\<close> that reading a property of \<^verbatim>\<open>undefined\<close> throws (V8).\<close>

definition type_error_message :: "jsstring \<Rightarrow> jsstring" where
  "type_error_message prop =
     js ''Cannot read properties of undefined (reading '' @ [39] @ prop @ [39] @ js '')''"

text \<open>\<^verbatim>\<open>content ? { success: true, content } : { success: false, error: "No response content" }\<close>\<close>

definition content_result :: "jsstring option \<Rightarrow> ai_result" where
  "content_result content =
     (case content of
        Some t \<Rightarrow> if t \<noteq> [] then AISuccess t else AIFailure no_response_content
      | None \<Rightarrow> AIFailure no_response_content)"

text \<open>\<^verbatim>\<open>response.choices[0].message.content\<close>\<close>

definition openai_content :: "jsstring option list \<Rightarrow> js_error + jsstring option" where
  "openai_content choices =
     (case choices of
        [] \<Rightarrow> Inl (Error (type_error_message (js ''message'')))
      | c # others \<Rightarrow> Inr c)"

text \<open>\<^verbatim>\<open>geminiRes.candidates[0].content.parts[0].text\<close>\<close>

definition gemini_content :: "jsstring option list list \<Rightarrow> js_error + jsstring option" where
  "gemini_content candidates =
     (case candidates of
        [] \<Rightarrow> Inl (Error (type_error_message (js ''content'')))
      | parts # others \<Rightarrow>
          (case parts of
             [] \<Rightarrow> Inl (Error (type_error_message (js ''text'')))
           | t # ts \<Rightarrow> Inr t))"

text \<open>\<^verbatim>\<open>(response.content[0] as { type: 'text', text: string }).text\<close>\<close>

definition anthropic_content :: "jsstring option list \<Rightarrow> js_error + jsstring option" where
  "anthropic_content blocks =
     (case blocks of
        [] \<Rightarrow> Inl (Error (type_error_message (js ''text'')))
      | b # others \<Rightarrow> Inr b)"

text \<open>The \<^verbatim>\<open>catch\<close> block of \<^verbatim>\<open>callAIModel\<close>: the message of the failure result.\<close>

definition error_message :: "js_error \<Rightarrow> jsstring" where
  "error_message error =
     (case error of
        ClaudeAPIError status \<Rightarrow>
          if status = Some 429
          then js ''Claude API rate limit exceeded. Please wait a few minutes before trying again.''
          else if status = Some 413
          then js ''Your screenshots contain too much information for Claude to process. Switch to OpenAI or Gemini in settings which can handle larger inputs.''
          else js ''Failed to process request. Please try again.''
      | OpenAiAPIError status \<Rightarrow>
          if status = Some 401 then js ''Invalid OpenAI API key. Please check your settings.''
          else if status = Some 429
          then js ''OpenAI API rate limit exceeded or insufficient credits. Please try again later.''
          else if status = Some 500 then js ''OpenAI server error. Please try again later.''
          else js ''Failed to process request. Please try again.''
      | AxiosCancel \<Rightarrow> js ''Request was canceled by the user.''
      | Error message \<Rightarrow> message
      | NonError \<Rightarrow> js ''Failed to process request. Please try again.'')"

text \<open>
  One adapter per provider: the vendor's answer, the read of its first text field, and the
  \<^verbatim>\<open>catch\<close> block around both.
\<close>

definition adapter_result :: "js_error + jsstring option \<Rightarrow> ai_result" where
  "adapter_result r = (case r of Inl error \<Rightarrow> AIFailure (error_message error)
                                | Inr content \<Rightarrow> content_result content)"

definition openai_adapter :: "env \<Rightarrow> request \<Rightarrow> ai_result" where
  "openai_adapter e req =
     adapter_result (case openai_create e req of Inl error \<Rightarrow> Inl error
                                                | Inr choices \<Rightarrow> openai_content choices)"

definition gemini_adapter :: "env \<Rightarrow> request \<Rightarrow> ai_result" where
  "gemini_adapter e req =
     adapter_result (case gemini_post e req of Inl error \<Rightarrow> Inl error
                                              | Inr candidates \<Rightarrow> gemini_content candidates)"

definition anthropic_adapter :: "env \<Rightarrow> request \<Rightarrow> ai_result" where
  "anthropic_adapter e req =
     adapter_result (case anthropic_create e req of Inl error \<Rightarrow> Inl error
                                                   | Inr blocks \<Rightarrow> anthropic_content blocks)"

text \<open>\<^verbatim>\<open>this.geminiApiKey\<close> is truthy: set, and not the empty string.\<close>

definition geminiKeySet :: "state \<Rightarrow> bool" where
  "geminiKeySet st = (case geminiApiKey st of None \<Rightarrow> False | Some k \<Rightarrow> k \<noteq> [])"

definition anthropic_not_configured :: jsstring where
  "anthropic_not_configured = js ''Anthropic API key not configured. Please check your settings.''"

definition vendorCall :: "provider \<Rightarrow> request \<Rightarrow> state \<Rightarrow> state" where
  "vendorCall pr req st = st\<lparr>trace := trace st @ [VendorCall pr req]\<rparr>"

definition callAIModel ::
  "env \<Rightarrow> prompt \<Rightarrow> jsstring list \<Rightarrow> modelType \<Rightarrow> state \<Rightarrow> ai_result \<times> state" where
  "callAIModel e prompt imageDataList modelType st =
     (let cfg = config e;
          configured = (case modelType of
                          Extraction \<Rightarrow> extractionModel cfg
                        | Solution \<Rightarrow> solutionModel cfg
                        | Debugging \<Rightarrow> debuggingModel cfg);
          modelName = (if configured \<noteq> [] then configured
                       else if apiProvider cfg = OpenAI then js ''gpt-4o''
                       else if apiProvider cfg = Gemini then js ''gemini-2.0-flash''
                       else js ''claude-3-7-sonnet-20250219'');
          st1 = (case modelType of
                   Solution \<Rightarrow>
                     updateProcessingStatus e
                       (js ''Creating optimal solution with detailed explanations...'') 60 st
                 | Extraction \<Rightarrow>
                     updateProcessingStatus e (js ''Analyzing problem from screenshots...'') 20 st
                 | Debugging \<Rightarrow>
                     updateProcessingStatus e
                       (js ''Analyzing code and generating debug feedback...'') 60 st);
          req = \<lparr>req_model = modelName, req_type = modelType, req_prompt = prompt,
                 req_images = imageDataList\<rparr>
      in case apiProvider cfg of
           OpenAI \<Rightarrow>
             if \<not> openaiClient st1
             then (AIFailure (js ''OpenAI API key not configured. Please check your settings.''), st1)
             else (openai_adapter e req, vendorCall OpenAI req st1)
         | Gemini \<Rightarrow>
             if \<not> geminiKeySet st1
             then (AIFailure (js ''Gemini API key not configured. Please check your settings.''), st1)
             else (gemini_adapter e req, vendorCall Gemini req st1)
         | Anthropic \<Rightarrow>
             if \<not> anthropicClient st1
             then (AIFailure anthropic_not_configured, st1)
             else (anthropic_adapter e req, vendorCall Anthropic req st1)
         | OtherProvider \<Rightarrow> (AIFailure (js ''Unsupported AI provider''), st1))"

section \<open>The stage helpers\<close>

text \<open>
  \<^verbatim>\<open>generateSolutionsHelper\<close>. The test of the empty content after a successful call is
  the source's (\<^verbatim>\<open>"No response content received"\<close>).
\<close>

definition generateSolutionsHelper :: "env \<Rightarrow> state \<Rightarrow> solution result \<times> state" where
  "generateSolutionsHelper e st =
     (let info = problemInfo st;
          lang = getLanguage e
      in if \<not> truthy info then (Failure (js ''No problem info available''), st)
         else (case callAIModel e (SolutionPrompt info lang) [] Solution st of
                 (AIFailure err, st1) \<Rightarrow> (Failure err, st1)
               | (AISuccess responseContent, st1) \<Rightarrow>
                   if responseContent = [] then (Failure (js ''No response content received''), st1)
                   else (Success (parse_solution responseContent), st1)))"

text \<open>\<^verbatim>\<open>/```json|```/g\<close>\<close>

definition jsonFenceRegex :: regex where
  "jsonFenceRegex = Alt (lit (fence @ js ''json'')) (lit fence)"

text \<open>
  \<^verbatim>\<open>processScreenshotsHelper\<close>. Its \<^verbatim>\<open>catch\<close> block turns the \<^verbatim>\<open>SyntaxError\<close> of
  \<^verbatim>\<open>JSON.parse\<close> and the \<^verbatim>\<open>Error\<close> it throws for a failed solution stage into a failure
  result with the error's message.
\<close>

definition processScreenshotsHelper ::
  "env \<Rightarrow> screenshot list \<Rightarrow> state \<Rightarrow> solution result \<times> state" where
  "processScreenshotsHelper e screenshots st =
     (let lang = getLanguage e;
          imageDataList = map shot_data screenshots
      in case callAIModel e (ExtractionPrompt lang) imageDataList Extraction st of
           (AIFailure err, st1) \<Rightarrow> (Failure err, st1)
         | (AISuccess content, st1) \<Rightarrow>
             (case json_parse e (js_trim (js_replace_all jsonFenceRegex [] content)) of
                Inl syntaxError \<Rightarrow> (Failure syntaxError, st1)
              | Inr info \<Rightarrow>
                  (let st2 = updateProcessingStatus e
                        (js ''Problem analyzed successfully. Preparing to generate solution...'') 40 st1;
                       st3 = st2\<lparr>problemInfo := info\<rparr>
                   in case mainWindow e of
                        None \<Rightarrow> (Failure (js ''Failed to process screenshots''), st3)
                      | Some w \<Rightarrow>
                          (case generateSolutionsHelper e
                                  (sendProcessingEvent e (PROBLEM_EXTRACTED info) st3) of
                             (Success d, st5) \<Rightarrow>
                               (Success d,
                                sendProcessingEvent e (SOLUTION_SUCCESS d)
                                  (updateProcessingStatus e (js ''Solution generated successfully'') 100
                                     (clearExtraScreenshotQueue st5)))
                           | (Failure err, st5) \<Rightarrow>
                               (Failure (if err \<noteq> [] then err
                                         else js ''Failed to generate solutions''), st5)))))"

text \<open>\<^verbatim>\<open>processExtraScreenshotsHelper\<close>\<close>

definition processExtraScreenshotsHelper ::
  "env \<Rightarrow> screenshot list \<Rightarrow> state \<Rightarrow> debug_payload result \<times> state" where
  "processExtraScreenshotsHelper e screenshots st =
     (let info = problemInfo st;
          lang = getLanguage e
      in if \<not> truthy info then (Failure (js ''No problem info available''), st)
         else (let st1 = updateProcessingStatus e (js ''Processing debug screenshots...'') 30 st;
                   imageDataList = map shot_data screenshots
               in case callAIModel e (DebugPrompt info lang) imageDataList Debugging st1 of
                    (AIFailure err, st2) \<Rightarrow> (Failure err, st2)
                  | (AISuccess debugContent, st2) \<Rightarrow>
                      (let st3 = updateProcessingStatus e (js ''Debug analysis complete'') 100 st2
                       in if debugContent = [] then (Failure (js ''No debug content received''), st3)
                          else (Success (parse_debug debugContent), st3))))"

section \<open>The orchestrator\<close>

text \<open>
  One element of the \<^verbatim>\<open>Promise.all\<close> over the paths: the preview, then the file's data;
  if either throws, the element is \<^verbatim>\<open>null\<close> and is filtered out.
\<close>

definition load_screenshot :: "env \<Rightarrow> jsstring \<Rightarrow> screenshot option" where
  "load_screenshot e p =
     (case getImagePreview e p of
        None \<Rightarrow> None
      | Some pv \<Rightarrow>
          (case readFileSync e p of
             None \<Rightarrow> None
           | Some d \<Rightarrow> Some \<lparr>shot_path = p, shot_preview = pv, shot_data = d\<rparr>))"

text \<open>
  The branch of \<^verbatim>\<open>processScreenshots\<close> for a failed result of the main flow: the event by
  the substrings of the error, then the view back to the queue.
\<close>

definition initialFailure :: "env \<Rightarrow> jsstring \<Rightarrow> state \<Rightarrow> state" where
  "initialFailure e err st =
     setView Queue
       (if js_includes err (js ''API Key'') \<or> js_includes err (js ''OpenAI'')
           \<or> js_includes err (js ''Gemini'')
        then sendProcessingEvent e API_KEY_INVALID st
        else sendProcessingEvent e (INITIAL_SOLUTION_ERROR err) st)"

text \<open>
  The main flow: the branch \<^verbatim>\<open>view === "queue"\<close> of \<^verbatim>\<open>processScreenshots\<close>. The
  \<^verbatim>\<open>finally\<close> block clears the controller on every path behind the \<^verbatim>\<open>try\<close>.
\<close>

definition mainFlow :: "env \<Rightarrow> state \<Rightarrow> state" where
  "mainFlow e st =
     (let st1 = sendProcessingEvent e INITIAL_START st;
          queue = screenshotQueue st1
      in if queue = [] then sendProcessingEvent e NO_SCREENSHOTS st1
         else (let existingScreenshots = filter (existsSync e) queue
               in if existingScreenshots = [] then sendProcessingEvent e NO_SCREENSHOTS st1
                  else (let st2 = st1\<lparr>currentProcessingAbortController := Some ()\<rparr>;
                            validScreenshots = List.map_filter (load_screenshot e) existingScreenshots;
                            st3 = (if validScreenshots = []
                                   then setView Queue
                                          (sendProcessingEvent e
                                             (INITIAL_SOLUTION_ERROR (js ''Failed to load screenshot data'')) st2)
                                   else (case processScreenshotsHelper e validScreenshots st2 of
                                           (Failure err, st') \<Rightarrow> initialFailure e err st'
                                         | (Success d, st') \<Rightarrow>
                                             setView Solutions
                                               (sendProcessingEvent e (SOLUTION_SUCCESS d) st')))
                        in st3\<lparr>currentProcessingAbortController := None\<rparr>)))"

text \<open>The debug flow: the other branch of \<^verbatim>\<open>processScreenshots\<close>.\<close>

definition debugFlow :: "env \<Rightarrow> state \<Rightarrow> state" where
  "debugFlow e st =
     (let extraQueue = extraScreenshotQueue st
      in if extraQueue = [] then sendProcessingEvent e NO_SCREENSHOTS st
         else (let existingExtraScreenshots = filter (existsSync e) extraQueue
               in if existingExtraScreenshots = [] then sendProcessingEvent e NO_SCREENSHOTS st
                  else (let st1 = sendProcessingEvent e DEBUG_START st;
                            st2 = st1\<lparr>currentExtraProcessingAbortController := Some ()\<rparr>;
                            allPaths = screenshotQueue st2 @ existingExtraScreenshots;
                            validScreenshots =
                              List.map_filter
                                (\<lambda>p. if \<not> existsSync e p then None else load_screenshot e p) allPaths;
                            st3 = (if validScreenshots = []
                                   then sendProcessingEvent e
                                          (DEBUG_ERROR (js ''Failed to load screenshot data for debugging'')) st2
                                   else (case processExtraScreenshotsHelper e validScreenshots st2 of
                                           (Success d, st') \<Rightarrow>
                                             sendProcessingEvent e DEBUG_SUCCESS (st'\<lparr>hasDebugged := True\<rparr>)
                                         | (Failure err, st') \<Rightarrow>
                                             sendProcessingEvent e (DEBUG_ERROR err) st'))
                        in st3\<lparr>currentExtraProcessingAbortController := None\<rparr>)))"

text \<open>
  \<^verbatim>\<open>processScreenshots\<close>: nothing without a main window; the client of the configured
  provider is initialised again if it is missing, and \<^verbatim>\<open>API_KEY_INVALID\<close> ends the run if
  it is still missing; then the flow of the current view.
\<close>

definition processScreenshots :: "env \<Rightarrow> state \<Rightarrow> state" where
  "processScreenshots e st =
     (case mainWindow e of
        None \<Rightarrow> st
      | Some w \<Rightarrow>
          (let pr = apiProvider (config e);
               (st1, isClientValid) =
                 (if pr = OpenAI \<and> \<not> openaiClient st
                  then (initializeAIClient e st, openaiClient (initializeAIClient e st))
                  else if pr = Gemini \<and> \<not> geminiKeySet st
                  then (initializeAIClient e st, geminiKeySet (initializeAIClient e st))
                  else if pr = Anthropic \<and> \<not> anthropicClient st
                  then (initializeAIClient e st, anthropicClient (initializeAIClient e st))
                  else (st, True))
           in if \<not> isClientValid then sendProcessingEvent e API_KEY_INVALID st1
              else if view st1 = Queue then mainFlow e st1
              else debugFlow e st1))"

text \<open>\<^verbatim>\<open>cancelOngoingRequests\<close>\<close>

definition cancelOngoingRequests :: "env \<Rightarrow> state \<Rightarrow> state" where
  "cancelOngoingRequests e st =
     (let (wasCancelled1, st1) =
            (case currentProcessingAbortController st of
               Some c \<Rightarrow> (True, st\<lparr>currentProcessingAbortController := None,
                                    trace := trace st @ [Abort MainFlow]\<rparr>)
             | None \<Rightarrow> (False, st));
          (wasCancelled, st2) =
            (case currentExtraProcessingAbortController st1 of
               Some c \<Rightarrow> (True, st1\<lparr>currentExtraProcessingAbortController := None,
                                     trace := trace st1 @ [Abort DebugFlow]\<rparr>)
             | None \<Rightarrow> (wasCancelled1, st1));
          st3 = st2\<lparr>hasDebugged := False\<rparr>;
          st4 = st3\<lparr>problemInfo := JNull\<rparr>
      in if wasCancelled \<and> window_live e then sendProcessingEvent e NO_SCREENSHOTS st4 else st4)"

section \<open>Reading a run's actions\<close>

text \<open>The actions a step added to the trace, and tests on single actions.\<close>

definition new_actions :: "state \<Rightarrow> state \<Rightarrow> action list" where
  "new_actions st st' = drop (length (trace st)) (trace st')"

fun is_emit :: "event \<Rightarrow> action \<Rightarrow> bool" where
  "is_emit ev (Emit ev' d) = (ev' = ev)"
| "is_emit ev a = False"

fun is_vendor_call :: "action \<Rightarrow> bool" where
  "is_vendor_call (VendorCall pr req) = True"
| "is_vendor_call a = False"

fun is_solution_success :: "action \<Rightarrow> bool" where
  "is_solution_success (Emit (SOLUTION_SUCCESS d) delivered) = True"
| "is_solution_success a = False"

text \<open>Status notifications and vendor calls: all that a model call adds to the trace.\<close>

fun quiet :: "action \<Rightarrow> bool" where
  "quiet (Status message progress delivered) = True"
| "quiet (VendorCall pr req) = True"
| "quiet a = False"

section \<open>An example session\<close>

text \<open>
  A session used to run the model on concrete inputs: a live window, the chat-completion
  provider with a client, one screenshot that exists, and vendors that answer each stage.
\<close>

definition example_config :: config where
  "example_config = \<lparr>apiKey = js ''sk-test'', apiProvider = OpenAI, extractionModel = [],
     solutionModel = [], debuggingModel = [], language = js ''python''\<rparr>"

definition example_problem :: json where
  "example_problem = JObj [(js ''problem_statement'', JStr (js ''Two Sum''))]"

definition example_solution_text :: jsstring where
  "example_solution_text = js ''Time complexity: linear'' @ [10] @ js ''Space complexity: O(1) constant'' @ [10]"

definition example_env :: env where
  "example_env = \<lparr>mainWindow = Some (Window False), config = example_config,
     existsSync = (\<lambda>p. p = js ''a.png''),
     readFileSync = (\<lambda>p. Some (js ''iVBORw0KGgo='')),
     getImagePreview = (\<lambda>p. Some (js ''data:image/png;base64,iVBORw0KGgo='')),
     isInitialized = (\<lambda>k. True),
     windowLanguage = None,
     json_parse = (\<lambda>s. if s = js ''{}'' then Inr example_problem else Inl (js ''Unexpected end of JSON input'')),
     openai_create = (\<lambda>req. case req_type req of
                               Extraction \<Rightarrow> Inr [Some (js ''{}'')]
                             | Solution \<Rightarrow> Inr [Some example_solution_text]
                             | Debugging \<Rightarrow> Inr [Some (js ''- fix the loop bound'')]),
     gemini_post = (\<lambda>req. Inr []),
     anthropic_create = (\<lambda>req. Inl (ClaudeAPIError (Some 429)))\<rparr>"

definition example_state :: state where
  "example_state = \<lparr>openaiClient = True, geminiApiKey = None, anthropicClient = False,
     currentProcessingAbortController = None, currentExtraProcessingAbortController = None,
     view = Queue, problemInfo = JNull, hasDebugged = False,
     screenshotQueue = [js ''a.png''], extraScreenshotQueue = [js ''b.png''], trace = []\<rparr>"

section \<open>Cancellation\<close>

text \<open>
  C1. For every session state, \<^verbatim>\<open>cancelOngoingRequests\<close> leaves \<^verbatim>\<open>hasDebugged\<close> false and
  the problem info \<^verbatim>\<open>null\<close>, and both controllers cleared; a controller is aborted exactly
  when it was set; the run emits \<^verbatim>\<open>NO_SCREENSHOTS\<close> at most once, and only if one of the
  two controllers was set; if neither was set it does nothing that can be observed.
\<close>

theorem cancel_resets_session:
  "hasDebugged (cancelOngoingRequests e st) = False
   \<and> problemInfo (cancelOngoingRequests e st) = JNull
   \<and> currentProcessingAbortController (cancelOngoingRequests e st) = None
   \<and> currentExtraProcessingAbortController (cancelOngoingRequests e st) = None
   \<and> (Abort MainFlow \<in> set (new_actions st (cancelOngoingRequests e st)))
       = (currentProcessingAbortController st \<noteq> None)
   \<and> (Abort DebugFlow \<in> set (new_actions st (cancelOngoingRequests e st)))
       = (currentExtraProcessingAbortController st \<noteq> None)
   \<and> length (filter (is_emit NO_SCREENSHOTS) (new_actions st (cancelOngoingRequests e st))) \<le> 1
   \<and> (list_ex (is_emit NO_SCREENSHOTS) (new_actions st (cancelOngoingRequests e st)) \<longrightarrow>
        currentProcessingAbortController st \<noteq> None
        \<or> currentExtraProcessingAbortController st \<noteq> None)
   \<and> (currentProcessingAbortController st = None
        \<and> currentExtraProcessingAbortController st = None \<longrightarrow>
        new_actions st (cancelOngoingRequests e st) = [])"
  by (cases "currentProcessingAbortController st"; cases "currentExtraProcessingAbortController st")
     (simp_all add: cancelOngoingRequests_def sendProcessingEvent_def new_actions_def Let_def)

theorem cancel_resets_session_witness:
  "currentProcessingAbortController (example_state\<lparr>currentProcessingAbortController := Some (),
       hasDebugged := True, problemInfo := example_problem\<rparr>) \<noteq> None
   \<and> new_actions (example_state\<lparr>currentProcessingAbortController := Some (),
                                 hasDebugged := True, problemInfo := example_problem\<rparr>)
        (cancelOngoingRequests example_env
           (example_state\<lparr>currentProcessingAbortController := Some (),
                           hasDebugged := True, problemInfo := example_problem\<rparr>))
       = [Abort MainFlow, Emit NO_SCREENSHOTS True]
   \<and> hasDebugged (cancelOngoingRequests example_env
        (example_state\<lparr>currentProcessingAbortController := Some (),
                        hasDebugged := True, problemInfo := example_problem\<rparr>)) = False
   \<and> problemInfo (cancelOngoingRequests example_env
        (example_state\<lparr>currentProcessingAbortController := Some (),
                        hasDebugged := True, problemInfo := example_problem\<rparr>)) = JNull"
  using cancel_resets_session [of example_env
      "example_state\<lparr>currentProcessingAbortController := Some (),
                      hasDebugged := True, problemInfo := example_problem\<rparr>"]
  by (simp add: cancelOngoingRequests_def sendProcessingEvent_def new_actions_def
        example_state_def example_env_def window_live_def Let_def)

section \<open>The debug stage\<close>

definition example_screenshots :: "screenshot list" where
  "example_screenshots = [\<lparr>shot_path = js ''a.png'',
     shot_preview = js ''data:image/png;base64,iVBORw0KGgo='', shot_data = js ''iVBORw0KGgo=''\<rparr>]"

definition example_debug_state :: state where
  "example_debug_state = example_state\<lparr>view := Solutions, problemInfo := example_problem\<rparr>"

lemmas call_defs = callAIModel_def openai_adapter_def gemini_adapter_def anthropic_adapter_def
  adapter_result_def openai_content_def gemini_content_def anthropic_content_def
  content_result_def error_message_def vendorCall_def updateProcessingStatus_def
  sendProcessingEvent_def getLanguage_def geminiKeySet_def window_live_def Let_def

lemmas example_defs = example_env_def example_state_def example_config_def
  example_debug_state_def example_problem_def example_screenshots_def

lemma example_debug_run:
  "fst (processExtraScreenshotsHelper example_env example_screenshots example_debug_state)
     = Success (parse_debug (js ''- fix the loop bound''))"
  by (simp add: processExtraScreenshotsHelper_def call_defs example_defs js_def)

text \<open>
  C9. If the problem info is \<^verbatim>\<open>null\<close>, the debug-stage helper returns the failure
  \<^verbatim>\<open>"No problem info available"\<close> and leaves the state as it was, trace included: no
  provider is called. A successful debug result implies that the problem info exists (it
  is not \<^verbatim>\<open>null\<close>, and indeed truthy).
\<close>

theorem debug_requires_problem_info:
  "(problemInfo st = JNull \<longrightarrow>
      processExtraScreenshotsHelper e screenshots st
        = (Failure (js ''No problem info available''), st))
   \<and> (\<forall>d st'. processExtraScreenshotsHelper e screenshots st = (Success d, st') \<longrightarrow>
         problemInfo st \<noteq> JNull \<and> truthy (problemInfo st))"
  by (auto simp add: processExtraScreenshotsHelper_def Let_def split: if_splits)

theorem debug_requires_problem_info_witness:
  "problemInfo example_state = JNull
   \<and> processExtraScreenshotsHelper example_env example_screenshots example_state
       = (Failure (js ''No problem info available''), example_state)
   \<and> fst (processExtraScreenshotsHelper example_env example_screenshots example_debug_state)
       = Success (parse_debug (js ''- fix the loop bound''))
   \<and> problemInfo example_debug_state \<noteq> JNull"
proof -
  have null: "problemInfo example_state = JNull"
    by (simp add: example_state_def)
  obtain st' where run:
    "processExtraScreenshotsHelper example_env example_screenshots example_debug_state
       = (Success (parse_debug (js ''- fix the loop bound'')), st')"
    using example_debug_run by (metis prod.collapse)
  from debug_requires_problem_info [of example_state example_env example_screenshots] null
  have "processExtraScreenshotsHelper example_env example_screenshots example_state
          = (Failure (js ''No problem info available''), example_state)"
    by blast
  moreover from debug_requires_problem_info
      [of example_debug_state example_env example_screenshots] run
  have "problemInfo example_debug_state \<noteq> JNull"
    by blast
  ultimately show ?thesis
    using null example_debug_run by simp
qed

text \<open>
  C6, as the code has it. For every successful debug-stage result the payload's
  \<^verbatim>\<open>time_complexity\<close> and \<^verbatim>\<open>space_complexity\<close> are both the constant
  \<^verbatim>\<open>"N/A - Debug mode"\<close>.
\<close>

theorem debug_payload_complexity_constants:
  "processExtraScreenshotsHelper e screenshots st = (Success d, st') \<Longrightarrow>
     dbg_time_complexity d = js ''N/A - Debug mode''
     \<and> dbg_space_complexity d = js ''N/A - Debug mode''"
  by (auto simp add: processExtraScreenshotsHelper_def parse_debug_def Let_def
        split: if_splits prod.splits ai_result.splits)

theorem debug_payload_complexity_constants_witness:
  "fst (processExtraScreenshotsHelper example_env example_screenshots example_debug_state)
     = Success (parse_debug (js ''- fix the loop bound''))
   \<and> dbg_time_complexity (parse_debug (js ''- fix the loop bound'')) = js ''N/A - Debug mode''
   \<and> dbg_space_complexity (parse_debug (js ''- fix the loop bound'')) = js ''N/A - Debug mode''"
proof -
  obtain st' where run:
    "processExtraScreenshotsHelper example_env example_screenshots example_debug_state
       = (Success (parse_debug (js ''- fix the loop bound'')), st')"
    using example_debug_run by (metis prod.collapse)
  from debug_payload_complexity_constants [OF run] example_debug_run show ?thesis
    by simp
qed

text \<open>
  C6, as the claim states it, fails: on the example session the debug stage succeeds and
  neither field is the string \<^verbatim>\<open>"N/A"\<close>.
\<close>

theorem debug_payload_not_bare_na:
  "fst (processExtraScreenshotsHelper example_env example_screenshots example_debug_state)
     = Success (parse_debug (js ''- fix the loop bound''))
   \<and> dbg_time_complexity (parse_debug (js ''- fix the loop bound'')) \<noteq> js ''N/A''
   \<and> dbg_space_complexity (parse_debug (js ''- fix the loop bound'')) \<noteq> js ''N/A''"
  using example_debug_run by (simp add: parse_debug_def Let_def js_def)

section \<open>Empty and missing screenshots\<close>

lemma initializeAIClient_session:
  "trace (initializeAIClient e st) = trace st
   \<and> view (initializeAIClient e st) = view st
   \<and> screenshotQueue (initializeAIClient e st) = screenshotQueue st
   \<and> extraScreenshotQueue (initializeAIClient e st) = extraScreenshotQueue st"
  by (simp add: initializeAIClient_def Let_def split: provider.splits)

lemma mainFlow_no_screenshots:
  assumes "\<forall>p\<in>set (screenshotQueue st). \<not> existsSync e p"
  shows "mainFlow e st = st\<lparr>trace := trace st @ [Emit INITIAL_START (window_live e),
                                                  Emit NO_SCREENSHOTS (window_live e)]\<rparr>"
proof -
  have "filter (existsSync e) (screenshotQueue st) = []"
    using assms by (simp add: filter_empty_conv)
  then show ?thesis
    by (simp add: mainFlow_def sendProcessingEvent_def Let_def)
qed

lemma debugFlow_no_screenshots:
  assumes "\<forall>p\<in>set (extraScreenshotQueue st). \<not> existsSync e p"
  shows "debugFlow e st = st\<lparr>trace := trace st @ [Emit NO_SCREENSHOTS (window_live e)]\<rparr>"
proof -
  have "filter (existsSync e) (extraScreenshotQueue st) = []"
    using assms by (simp add: filter_empty_conv)
  then show ?thesis
    by (simp add: debugFlow_def sendProcessingEvent_def Let_def)
qed

text \<open>
  With a main window and a client for the configured provider, \<^verbatim>\<open>processScreenshots\<close> is
  the flow of the current view.
\<close>

lemma processScreenshots_dispatch:
  assumes "mainWindow e = Some w"
    and "apiProvider (config e) = OpenAI \<longrightarrow> openaiClient st"
    and "apiProvider (config e) = Gemini \<longrightarrow> geminiKeySet st"
    and "apiProvider (config e) = Anthropic \<longrightarrow> anthropicClient st"
  shows "processScreenshots e st = (if view st = Queue then mainFlow e st else debugFlow e st)"
  using assms by (cases "apiProvider (config e)") (simp_all add: processScreenshots_def Let_def)

text \<open>
  C3. If the queue of the flow (the primary queue for the main flow, the extra queue for
  the debug flow) is empty, or no file it lists exists, the flow emits \<^verbatim>\<open>NO_SCREENSHOTS\<close>
  and returns: the main flow adds its \<^verbatim>\<open>INITIAL_START\<close> and the \<^verbatim>\<open>NO_SCREENSHOTS\<close> event
  to the trace, the debug flow the \<^verbatim>\<open>NO_SCREENSHOTS\<close> event alone, and nothing else of the
  state changes. An event in the trace is a call of \<^verbatim>\<open>sendProcessingEvent\<close>; it reaches the
  page when the window is live. No provider is called, and none is called by
  \<^verbatim>\<open>processScreenshots\<close> as a whole on such a queue.
\<close>

theorem no_screenshots_short_circuit:
  "(screenshotQueue st = [] \<or> (\<forall>p\<in>set (screenshotQueue st). \<not> existsSync e p) \<longrightarrow>
      mainFlow e st = st\<lparr>trace := trace st @ [Emit INITIAL_START (window_live e),
                                                Emit NO_SCREENSHOTS (window_live e)]\<rparr>)
   \<and> (extraScreenshotQueue st = [] \<or> (\<forall>p\<in>set (extraScreenshotQueue st). \<not> existsSync e p) \<longrightarrow>
      debugFlow e st = st\<lparr>trace := trace st @ [Emit NO_SCREENSHOTS (window_live e)]\<rparr>)
   \<and> ((if view st = Queue then \<forall>p\<in>set (screenshotQueue st). \<not> existsSync e p
        else \<forall>p\<in>set (extraScreenshotQueue st). \<not> existsSync e p) \<longrightarrow>
      \<not> list_ex is_vendor_call (new_actions st (processScreenshots e st)))"
proof (intro conjI impI)
  assume "screenshotQueue st = [] \<or> (\<forall>p\<in>set (screenshotQueue st). \<not> existsSync e p)"
  then have "\<forall>p\<in>set (screenshotQueue st). \<not> existsSync e p" by auto
  then show "mainFlow e st = st\<lparr>trace := trace st @ [Emit INITIAL_START (window_live e),
                                                      Emit NO_SCREENSHOTS (window_live e)]\<rparr>"
    by (rule mainFlow_no_screenshots)
next
  assume "extraScreenshotQueue st = [] \<or> (\<forall>p\<in>set (extraScreenshotQueue st). \<not> existsSync e p)"
  then have "\<forall>p\<in>set (extraScreenshotQueue st). \<not> existsSync e p" by auto
  then show "debugFlow e st = st\<lparr>trace := trace st @ [Emit NO_SCREENSHOTS (window_live e)]\<rparr>"
    by (rule debugFlow_no_screenshots)
next
  assume none: "if view st = Queue then \<forall>p\<in>set (screenshotQueue st). \<not> existsSync e p
                else \<forall>p\<in>set (extraScreenshotQueue st). \<not> existsSync e p"
  have flows: "\<not> list_ex is_vendor_call (new_actions s (if view s = Queue then mainFlow e s else debugFlow e s))"
    if "view s = view st" "screenshotQueue s = screenshotQueue st"
       "extraScreenshotQueue s = extraScreenshotQueue st" for s
  proof (cases "view s = Queue")
    case True
    with none that have "\<forall>p\<in>set (screenshotQueue s). \<not> existsSync e p" by simp
    from mainFlow_no_screenshots [OF this] True show ?thesis
      by (simp add: new_actions_def)
  next
    case False
    with none that have "\<forall>p\<in>set (extraScreenshotQueue s). \<not> existsSync e p" by simp
    from debugFlow_no_screenshots [OF this] False show ?thesis
      by (simp add: new_actions_def)
  qed
  have init: "\<not> list_ex is_vendor_call
      (drop (length (trace st))
         (trace (if view (initializeAIClient e st) = Queue then mainFlow e (initializeAIClient e st)
                 else debugFlow e (initializeAIClient e st))))"
    using flows [of "initializeAIClient e st"] initializeAIClient_session [of e st]
    by (simp add: new_actions_def)
  show "\<not> list_ex is_vendor_call (new_actions st (processScreenshots e st))"
  proof (cases "mainWindow e")
    case None
    then show ?thesis by (simp add: processScreenshots_def new_actions_def)
  next
    case (Some w)
    then show ?thesis
      using flows [of st] init initializeAIClient_session [of e st]
      by (auto simp add: processScreenshots_def new_actions_def sendProcessingEvent_def Let_def
            split: if_splits)
  qed
qed

theorem no_screenshots_short_circuit_witness:
  "screenshotQueue (example_state\<lparr>screenshotQueue := []\<rparr>) = []
   \<and> mainFlow example_env (example_state\<lparr>screenshotQueue := []\<rparr>)
       = example_state\<lparr>screenshotQueue := [],
                        trace := [Emit INITIAL_START True, Emit NO_SCREENSHOTS True]\<rparr>
   \<and> \<not> existsSync example_env (js ''b.png'')
   \<and> debugFlow example_env example_debug_state
       = example_debug_state\<lparr>trace := [Emit NO_SCREENSHOTS True]\<rparr>
   \<and> new_actions example_debug_state (processScreenshots example_env example_debug_state)
       = [Emit NO_SCREENSHOTS True]"
proof -
  have missing: "\<not> existsSync example_env (js ''b.png'')"
    by (simp add: example_env_def js_def)
  have q: "extraScreenshotQueue example_debug_state = [js ''b.png'']"
    by (simp add: example_defs)
  have live: "window_live example_env"
    by (simp add: window_live_def example_env_def)
  have d: "processScreenshots example_env example_debug_state
             = debugFlow example_env example_debug_state"
    by (simp add: processScreenshots_def Let_def example_defs)
  from no_screenshots_short_circuit [of "example_state\<lparr>screenshotQueue := []\<rparr>" example_env]
  have m: "mainFlow example_env (example_state\<lparr>screenshotQueue := []\<rparr>)
       = example_state\<lparr>screenshotQueue := [],
                        trace := [Emit INITIAL_START True, Emit NO_SCREENSHOTS True]\<rparr>"
    using live by (simp add: example_state_def)
  from no_screenshots_short_circuit [of example_debug_state example_env] missing q
  have g: "debugFlow example_env example_debug_state
       = example_debug_state\<lparr>trace := [Emit NO_SCREENSHOTS True]\<rparr>"
    using live by (simp add: example_defs)
  from m g d missing show ?thesis
    by (simp add: new_actions_def example_defs)
qed

section \<open>Responses without text\<close>

text \<open>
  Where the first choice, the first part of the first candidate, or the first content
  block is there and its text is \<^verbatim>\<open>null\<close>, \<^verbatim>\<open>undefined\<close> or empty, each adapter returns
  the failure \<^verbatim>\<open>"No response content"\<close>.
\<close>

lemma first_text_missing:
  assumes "c = None \<or> c = Some []"
  shows "openai_create e req = Inr (c # cs) \<Longrightarrow> openai_adapter e req = AIFailure no_response_content"
    and "gemini_post e req = Inr ((c # ps) # cands) \<Longrightarrow>
           gemini_adapter e req = AIFailure no_response_content"
    and "anthropic_create e req = Inr (c # cs) \<Longrightarrow>
           anthropic_adapter e req = AIFailure no_response_content"
  using assms
  by (auto simp add: openai_adapter_def gemini_adapter_def anthropic_adapter_def adapter_result_def
        openai_content_def gemini_content_def anthropic_content_def content_result_def)

definition gemini_env :: env where
  "gemini_env = example_env\<lparr>config := example_config\<lparr>apiProvider := Gemini\<rparr>\<rparr>"

definition gemini_state :: state where
  "gemini_state = example_state\<lparr>openaiClient := False, geminiApiKey := Some (js ''AIza-test'')\<rparr>"

text \<open>
  C5 on a response without candidates. The REST vendor of \<open>gemini_env\<close> answers every
  request with an empty \<^verbatim>\<open>candidates\<close> array: the response has no text content. The read
  \<^verbatim>\<open>candidates[0].content\<close> throws a \<^verbatim>\<open>TypeError\<close>, the \<^verbatim>\<open>catch\<close> block returns its message,
  and the failure is not \<^verbatim>\<open>"No response content"\<close>.
\<close>

theorem gemini_without_candidates:
  "gemini_post gemini_env req = Inr []
   \<and> gemini_adapter gemini_env req = AIFailure (type_error_message (js ''content''))
   \<and> fst (callAIModel gemini_env (ExtractionPrompt (js ''python'')) [js ''iVBORw0KGgo='']
            Extraction gemini_state)
       = AIFailure (type_error_message (js ''content''))
   \<and> type_error_message (js ''content'') \<noteq> no_response_content"
  by (simp add: gemini_env_def gemini_state_def call_defs example_defs
        type_error_message_def no_response_content_def js_def)

section \<open>Failures of the main flow\<close>

definition claude_env :: env where
  "claude_env = example_env\<lparr>config := example_config\<lparr>apiProvider := Anthropic\<rparr>\<rparr>"

definition claude_state :: state where
  "claude_state = example_state\<lparr>openaiClient := False, anthropicClient := True\<rparr>"

definition claude_rate_limit :: jsstring where
  "claude_rate_limit = error_message (ClaudeAPIError (Some 429))"

text \<open>
  C4 on the third provider. The failure \<^verbatim>\<open>"Anthropic API key not configured. Please check
  your settings."\<close> of \<^verbatim>\<open>callAIModel\<close> names the provider, and the failure branch of the main
  flow answers it with \<^verbatim>\<open>INITIAL_SOLUTION_ERROR\<close>, not \<^verbatim>\<open>API_KEY_INVALID\<close>; so does the main
  flow when it runs with the third provider configured and its client unset, and so does
  a whole run of \<^verbatim>\<open>processScreenshots\<close> in which the messages API answers with status 429
  (\<^verbatim>\<open>"Claude API rate limit exceeded. ..."\<close>). The view is set back to the queue.
\<close>

theorem anthropic_failure_not_reclassified:
  "js_includes anthropic_not_configured (js ''Anthropic'')
   \<and> new_actions example_state (initialFailure example_env anthropic_not_configured example_state)
       = [Emit (INITIAL_SOLUTION_ERROR anthropic_not_configured) True, SetView Queue]
   \<and> view (initialFailure example_env anthropic_not_configured example_state) = Queue
   \<and> filter (\<lambda>a. \<not> quiet a)
        (new_actions (claude_state\<lparr>anthropicClient := False\<rparr>)
           (mainFlow claude_env (claude_state\<lparr>anthropicClient := False\<rparr>)))
       = [Emit INITIAL_START True, Emit (INITIAL_SOLUTION_ERROR anthropic_not_configured) True,
          SetView Queue]
   \<and> js_includes claude_rate_limit (js ''Claude'')
   \<and> filter (\<lambda>a. \<not> quiet a) (new_actions claude_state (processScreenshots claude_env claude_state))
       = [Emit INITIAL_START True, Emit (INITIAL_SOLUTION_ERROR claude_rate_limit) True,
          SetView Queue]
   \<and> view (processScreenshots claude_env claude_state) = Queue"
proof -
  have a: "js_includes anthropic_not_configured (js ''Anthropic'')"
    by (simp add: anthropic_not_configured_def js_def)
  have b: "\<not> js_includes anthropic_not_configured (js ''API Key'')"
    "\<not> js_includes anthropic_not_configured (js ''OpenAI'')"
    "\<not> js_includes anthropic_not_configured (js ''Gemini'')"
    by (simp_all add: anthropic_not_configured_def js_def)
  have c: "js_includes claude_rate_limit (js ''Claude'')"
    by (simp add: claude_rate_limit_def error_message_def js_def)
  have d: "\<not> js_includes claude_rate_limit (js ''API Key'')"
    "\<not> js_includes claude_rate_limit (js ''OpenAI'')"
    "\<not> js_includes claude_rate_limit (js ''Gemini'')"
    by (simp_all add: claude_rate_limit_def error_message_def js_def)
  have shots: "List.map_filter (load_screenshot claude_env) [js ''a.png''] = example_screenshots"
    by (simp add: List.map_filter_def load_screenshot_def claude_env_def example_defs)
  have e: "filter (\<lambda>a. \<not> quiet a) (new_actions claude_state (processScreenshots claude_env claude_state))
       = [Emit INITIAL_START True, Emit (INITIAL_SOLUTION_ERROR claude_rate_limit) True,
          SetView Queue]
     \<and> view (processScreenshots claude_env claude_state) = Queue"
    using d shots
    by (simp add: processScreenshots_def mainFlow_def initialFailure_def setView_def
          processScreenshotsHelper_def claude_env_def claude_state_def
          callAIModel_def anthropic_adapter_def adapter_result_def vendorCall_def
          updateProcessingStatus_def sendProcessingEvent_def getLanguage_def window_live_def
          new_actions_def Let_def example_defs claude_rate_limit_def [symmetric])
  have f: "filter (\<lambda>a. \<not> quiet a)
        (new_actions (claude_state\<lparr>anthropicClient := False\<rparr>)
           (mainFlow claude_env (claude_state\<lparr>anthropicClient := False\<rparr>)))
       = [Emit INITIAL_START True, Emit (INITIAL_SOLUTION_ERROR anthropic_not_configured) True,
          SetView Queue]"
    using b shots
    by (simp add: mainFlow_def initialFailure_def setView_def
          processScreenshotsHelper_def claude_env_def claude_state_def
          callAIModel_def vendorCall_def
          updateProcessingStatus_def sendProcessingEvent_def getLanguage_def window_live_def
          new_actions_def Let_def example_defs)
  from a b c e f show ?thesis
    by (simp add: initialFailure_def setView_def sendProcessingEvent_def new_actions_def
          window_live_def example_defs)
qed

section \<open>The successful main flow\<close>

text \<open>An action that is neither a \<^verbatim>\<open>SOLUTION_SUCCESS\<close> event nor the switch to the solutions view.\<close>

fun plain :: "action \<Rightarrow> bool" where
  "plain (Emit (SOLUTION_SUCCESS d) delivered) = False"
| "plain (SetView Solutions) = False"
| "plain a = True"

lemma callAIModel_trace:
  assumes "callAIModel e p imgs mt st = (r, st')"
  shows "st' = st\<lparr>trace := trace st'\<rparr>"
    and "\<exists>xs. trace st' = trace st @ xs \<and> list_all quiet xs"
  using assms
  by (auto simp add: callAIModel_def Let_def vendorCall_def updateProcessingStatus_def
        split: modelType.splits provider.splits if_splits)

lemma generateSolutionsHelper_trace:
  assumes "generateSolutionsHelper e st = (r, st')"
  shows "st' = st\<lparr>trace := trace st'\<rparr>"
    and "\<exists>xs. trace st' = trace st @ xs \<and> list_all quiet xs"
proof -
  show "st' = st\<lparr>trace := trace st'\<rparr>"
    using assms callAIModel_trace(1) [of e "SolutionPrompt (problemInfo st) (getLanguage e)" "[]" Solution st]
    by (auto simp add: generateSolutionsHelper_def Let_def split: if_splits prod.splits ai_result.splits)
  show "\<exists>xs. trace st' = trace st @ xs \<and> list_all quiet xs"
    using assms callAIModel_trace(2) [of e "SolutionPrompt (problemInfo st) (getLanguage e)" "[]" Solution st]
    by (auto simp add: generateSolutionsHelper_def Let_def split: if_splits prod.splits ai_result.splits)
qed


text \<open>The last three actions of a successful \<^verbatim>\<open>processScreenshotsHelper\<close>.\<close>

definition success_tail :: "env \<Rightarrow> solution \<Rightarrow> action list" where
  "success_tail e d = [ClearExtraScreenshotQueue,
     Status (js ''Solution generated successfully'') 100 (window_live e),
     Emit (SOLUTION_SUCCESS d) (window_live e)]"

lemma quiet_plain: "list_all quiet xs \<Longrightarrow> list_all plain xs"
proof (induction xs)
  case Nil then show ?case by simp
next
  case (Cons a xs)
  then show ?case by (cases a) auto
qed

lemma processScreenshotsHelper_trace:
  assumes "processScreenshotsHelper e shots st = (r, st')"
  shows "case r of
           Failure err \<Rightarrow> (\<exists>xs. trace st' = trace st @ xs \<and> list_all plain xs)
         | Success d \<Rightarrow> (\<exists>pre. trace st' = trace st @ pre @ success_tail e d \<and> list_all plain pre)
                          \<and> extraScreenshotQueue st' = []"
proof -
  obtain r1 st1 where c1: "callAIModel e (ExtractionPrompt (getLanguage e)) (map shot_data shots) Extraction st = (r1, st1)"
    by (cases "callAIModel e (ExtractionPrompt (getLanguage e)) (map shot_data shots) Extraction st")
  from callAIModel_trace(2) [OF c1] obtain xs1 where
    t1: "trace st1 = trace st @ xs1" and q1: "list_all quiet xs1" by blast
  show ?thesis
  proof (cases r1)
    case (AIFailure err)
    with assms c1 t1 q1 show ?thesis
      by (auto simp add: processScreenshotsHelper_def Let_def quiet_plain)
  next
    case (AISuccess content)
    show ?thesis
    proof (cases "json_parse e (js_trim (js_replace_all jsonFenceRegex [] content))")
      case (Inl syntaxError)
      with assms c1 t1 q1 AISuccess show ?thesis
        by (auto simp add: processScreenshotsHelper_def Let_def quiet_plain)
    next
      case (Inr info)
      show ?thesis
      proof (cases "mainWindow e")
        case None
        with assms c1 t1 q1 AISuccess Inr show ?thesis
          by (auto simp add: processScreenshotsHelper_def Let_def quiet_plain updateProcessingStatus_def)
      next
        case (Some w)
        define st4 where "st4 = sendProcessingEvent e (PROBLEM_EXTRACTED info)
           ((updateProcessingStatus e
              (js ''Problem analyzed successfully. Preparing to generate solution...'') 40 st1)
              \<lparr>problemInfo := info\<rparr>)"
        obtain r5 st5 where c5: "generateSolutionsHelper e st4 = (r5, st5)"
          by (cases "generateSolutionsHelper e st4")
        from generateSolutionsHelper_trace(2) [OF c5] obtain xs5 where
          t5: "trace st5 = trace st4 @ xs5" and q5: "list_all quiet xs5" by blast
        have t4: "trace st4 = trace st @ xs1 @ [Status (js ''Problem analyzed successfully. Preparing to generate solution...'') 40 (window_live e), Emit (PROBLEM_EXTRACTED info) (window_live e)]"
          by (simp add: st4_def sendProcessingEvent_def updateProcessingStatus_def t1)
        show ?thesis
        proof (cases r5)
          case (Failure err)
          with assms c1 AISuccess Inr Some c5 [unfolded st4_def] have "st' = st5" "\<exists>m. r = Failure m"
            by (auto simp add: processScreenshotsHelper_def Let_def)
          with t5 t4 q1 q5 show ?thesis
            by (auto simp add: quiet_plain)
        next
          case (Success d)
          with assms c1 AISuccess Inr Some c5 [unfolded st4_def]
          have r: "r = Success d" and st': "st' = sendProcessingEvent e (SOLUTION_SUCCESS d)
                    (updateProcessingStatus e (js ''Solution generated successfully'') 100
                       (clearExtraScreenshotQueue st5))"
            by (auto simp add: processScreenshotsHelper_def Let_def)
          have "trace st' = trace st @ (xs1 @ [Status (js ''Problem analyzed successfully. Preparing to generate solution...'') 40 (window_live e), Emit (PROBLEM_EXTRACTED info) (window_live e)] @ xs5) @ success_tail e d"
            by (simp add: st' sendProcessingEvent_def updateProcessingStatus_def
                  clearExtraScreenshotQueue_def success_tail_def t5 t4)
          moreover have "list_all plain (xs1 @ [Status (js ''Problem analyzed successfully. Preparing to generate solution...'') 40 (window_live e), Emit (PROBLEM_EXTRACTED info) (window_live e)] @ xs5)"
            using q1 q5 by (simp add: quiet_plain)
          moreover have "extraScreenshotQueue st' = []"
            by (simp add: st' sendProcessingEvent_def updateProcessingStatus_def
                  clearExtraScreenshotQueue_def)
          ultimately show ?thesis
            unfolding r by (simp only: result.case) blast
        qed
      qed
    qed
  qed
qed


lemma plain_not_solutions: "list_all plain xs \<Longrightarrow> SetView Solutions \<notin> set xs"
  by (induction xs) auto

lemma plain_no_success: "list_all plain xs \<Longrightarrow> filter is_solution_success xs = []"
proof (induction xs)
  case Nil then show ?case by simp
next
  case (Cons a xs)
  then show ?case by (cases a rule: plain.cases) auto
qed

text \<open>
  C10. A main flow is fully successful when it switches the view to the solutions. On every
  such flow the new actions end with: the extra screenshot queue is cleared, the status
  \<^verbatim>\<open>"Solution generated successfully"\<close> (100), \<^verbatim>\<open>SOLUTION_SUCCESS\<close> with the payload (the
  helper's), \<^verbatim>\<open>SOLUTION_SUCCESS\<close> with the same payload (the outer flow's), and the switch
  of the view; no action before them is a \<^verbatim>\<open>SOLUTION_SUCCESS\<close>. So the event is emitted
  exactly twice.
\<close>

theorem solution_success_emitted_twice:
  assumes "SetView Solutions \<in> set (new_actions st (mainFlow e st))"
  shows "(\<exists>pre d. new_actions st (mainFlow e st)
            = pre @ [ClearExtraScreenshotQueue,
                     Status (js ''Solution generated successfully'') 100 (window_live e),
                     Emit (SOLUTION_SUCCESS d) (window_live e),
                     Emit (SOLUTION_SUCCESS d) (window_live e),
                     SetView Solutions]
            \<and> list_all plain pre)
         \<and> length (filter is_solution_success (new_actions st (mainFlow e st))) = 2
         \<and> view (mainFlow e st) = Solutions
         \<and> extraScreenshotQueue (mainFlow e st) = []"
proof -
  define st1 where "st1 = sendProcessingEvent e INITIAL_START st"
  define existing where "existing = filter (existsSync e) (screenshotQueue st)"
  define st2 where "st2 = st1\<lparr>currentProcessingAbortController := Some ()\<rparr>"
  define valid where "valid = List.map_filter (load_screenshot e) existing"
  have t2: "trace st2 = trace st @ [Emit INITIAL_START (window_live e)]"
    by (simp add: st2_def st1_def sendProcessingEvent_def)
  obtain r st' where h: "processScreenshotsHelper e valid st2 = (r, st')"
    by (cases "processScreenshotsHelper e valid st2")
  have ne: "screenshotQueue st \<noteq> []" "existing \<noteq> []" "valid \<noteq> []"
    using assms
    by (auto simp add: mainFlow_def Let_def new_actions_def sendProcessingEvent_def setView_def
          existing_def valid_def split: if_splits)
  have flow: "mainFlow e st =
      (case r of Failure err \<Rightarrow> initialFailure e err st'
               | Success d \<Rightarrow> setView Solutions (sendProcessingEvent e (SOLUTION_SUCCESS d) st'))
        \<lparr>currentProcessingAbortController := None\<rparr>"
    using ne h
    by (simp add: mainFlow_def Let_def existing_def valid_def st2_def st1_def sendProcessingEvent_def)
  show ?thesis
  proof (cases r)
    case (Failure err)
    with processScreenshotsHelper_trace [OF h] obtain xs where
      xs: "trace st' = trace st2 @ xs" "list_all plain xs" by auto
    have "SetView Solutions \<notin> set (new_actions st (mainFlow e st))"
      using plain_not_solutions [OF xs(2)]
      by (simp add: flow Failure initialFailure_def setView_def sendProcessingEvent_def
            new_actions_def xs(1) t2)
    with assms show ?thesis by simp
  next
    case (Success d)
    with processScreenshotsHelper_trace [OF h] obtain pre where
      pre: "trace st' = trace st2 @ pre @ success_tail e d" "list_all plain pre"
      and q: "extraScreenshotQueue st' = []" by auto
    have new: "new_actions st (mainFlow e st)
        = (Emit INITIAL_START (window_live e) # pre) @
          [ClearExtraScreenshotQueue,
           Status (js ''Solution generated successfully'') 100 (window_live e),
           Emit (SOLUTION_SUCCESS d) (window_live e),
           Emit (SOLUTION_SUCCESS d) (window_live e),
           SetView Solutions]"
      by (simp add: flow Success setView_def sendProcessingEvent_def new_actions_def pre(1) t2
            success_tail_def)
    have p: "list_all plain (Emit INITIAL_START (window_live e) # pre)"
      using pre(2) by simp
    have "length (filter is_solution_success (new_actions st (mainFlow e st))) = 2"
      using plain_no_success [OF p] by (simp only: new filter_append) simp
    moreover have "view (mainFlow e st) = Solutions" "extraScreenshotQueue (mainFlow e st) = []"
      using q by (simp_all add: flow Success setView_def sendProcessingEvent_def)
    ultimately show ?thesis
      using new p by blast
  qed
qed


lemma example_json_text:
  "js_trim (js_replace_all jsonFenceRegex [] (js ''{}'')) = js ''{}''"
  by (simp add: js_replace_all_def replace_all.simps jsonFenceRegex_def regex_eval)

lemma example_content: "example_solution_text \<noteq> []"
  by (simp add: example_solution_text_def js_def)

lemma example_main_run:
  "filter (\<lambda>a. \<not> quiet a) (new_actions example_state (mainFlow example_env example_state))
     = [Emit INITIAL_START True, Emit (PROBLEM_EXTRACTED example_problem) True,
        ClearExtraScreenshotQueue,
        Emit (SOLUTION_SUCCESS (parse_solution example_solution_text)) True,
        Emit (SOLUTION_SUCCESS (parse_solution example_solution_text)) True,
        SetView Solutions]"
proof -
  have shots: "List.map_filter (load_screenshot example_env) [js ''a.png''] = example_screenshots"
    by (simp add: List.map_filter_def load_screenshot_def example_defs)
  have ex: "existsSync example_env (js ''a.png'')"
    by (simp add: example_env_def)
  have parse: "json_parse example_env (js_trim (js_replace_all jsonFenceRegex [] (js ''{}'')))
                 = Inr example_problem"
    by (simp add: example_json_text) (simp add: example_env_def)
  have cfg: "config example_env = example_config" "mainWindow example_env = Some (Window False)"
    "openai_create example_env = (\<lambda>req. case req_type req of
                               Extraction \<Rightarrow> Inr [Some (js ''{}'')]
                             | Solution \<Rightarrow> Inr [Some example_solution_text]
                             | Debugging \<Rightarrow> Inr [Some (js ''- fix the loop bound'')])"
    by (simp_all add: example_env_def)
  have nz: "js ''{}'' \<noteq> []" "language example_config \<noteq> []" by (simp_all add: js_def example_config_def)
  have tr: "truthy example_problem" by (simp add: example_problem_def)
  have sn: "example_screenshots \<noteq> []" by (simp add: example_screenshots_def)
  show ?thesis
    using shots ex parse example_content nz tr sn
    by (simp add: mainFlow_def processScreenshotsHelper_def generateSolutionsHelper_def
          callAIModel_def openai_adapter_def adapter_result_def openai_content_def
          content_result_def vendorCall_def updateProcessingStatus_def sendProcessingEvent_def
          clearExtraScreenshotQueue_def setView_def getLanguage_def window_live_def
          new_actions_def Let_def cfg example_state_def example_config_def)
qed

theorem solution_success_emitted_twice_witness:
  "SetView Solutions \<in> set (new_actions example_state (mainFlow example_env example_state))
   \<and> length (filter is_solution_success
               (new_actions example_state (mainFlow example_env example_state))) = 2
   \<and> filter (\<lambda>a. \<not> quiet a) (new_actions example_state (mainFlow example_env example_state))
       = [Emit INITIAL_START True, Emit (PROBLEM_EXTRACTED example_problem) True,
          ClearExtraScreenshotQueue,
          Emit (SOLUTION_SUCCESS (parse_solution example_solution_text)) True,
          Emit (SOLUTION_SUCCESS (parse_solution example_solution_text)) True,
          SetView Solutions]
   \<and> view (mainFlow example_env example_state) = Solutions"
proof -
  have "SetView Solutions
          \<in> set (filter (\<lambda>a. \<not> quiet a) (new_actions example_state (mainFlow example_env example_state)))"
    by (simp add: example_main_run)
  then have h: "SetView Solutions \<in> set (new_actions example_state (mainFlow example_env example_state))"
    by simp
  from solution_success_emitted_twice [OF h] h example_main_run show ?thesis
    by simp
qed

section \<open>Facts about the matcher\<close>

lemma js_includes_iff: "js_includes s w \<longleftrightarrow> (\<exists>j\<le>length s. prefix w (drop j s))"
proof (induction s)
  case Nil
  then show ?case by auto
next
  case (Cons x xs)
  show ?case
  proof
    assume "js_includes (x # xs) w"
    then consider "prefix w (x # xs)" | "js_includes xs w" by auto
    then show "\<exists>j\<le>length (x # xs). prefix w (drop j (x # xs))"
    proof cases
      case 1
      then have "prefix w (drop 0 (x # xs))" by simp
      then show ?thesis by blast
    next
      case 2
      with Cons.IH obtain j where "j \<le> length xs" "prefix w (drop j xs)" by blast
      then have "Suc j \<le> length (x # xs)" "prefix w (drop (Suc j) (x # xs))" by simp_all
      then show ?thesis by blast
    qed
  next
    assume "\<exists>j\<le>length (x # xs). prefix w (drop j (x # xs))"
    then obtain j where j: "j \<le> length (x # xs)" "prefix w (drop j (x # xs))" by blast
    show "js_includes (x # xs) w"
    proof (cases j)
      case 0
      with j show ?thesis by simp
    next
      case (Suc k)
      with j have "k \<le> length xs" "prefix w (drop k xs)" by simp_all
      with Cons.IH have "js_includes xs w" by blast
      then show ?thesis by simp
    qed
  qed
qed

lemma m_lit_i:
  "m (lit_i w) c p a =
     (if prefix (map canon w) (map canon a) then [(c, p + length w, drop (length w) a)] else [])"
proof (induction w arbitrary: p a)
  case Nil
  then show ?case by (simp add: lit_i_def)
next
  case (Cons x w)
  have unfold: "lit_i (x # w) = Seq (Chr (\<lambda>y. canon y = canon x)) (lit_i w)"
    by (simp add: lit_i_def)
  show ?case
  proof (cases a)
    case Nil
    then show ?thesis by (simp add: unfold)
  next
    case (Cons y ys)
    then show ?thesis using Cons.IH [of "Suc p" ys]
      by (auto simp add: unfold)
  qed
qed

lemma exec_from_None:
  "(\<And>j. j \<le> length a \<Longrightarrow> m r None (p + j) (drop j a) = []) \<Longrightarrow> exec_from r p a = None"
proof (induction a arbitrary: p)
  case Nil
  from Nil [of 0] show ?case by (simp add: exec_from.simps)
next
  case (Cons x xs)
  have here: "m r None p (x # xs) = []" using Cons.prems [of 0] by simp
  have "exec_from r (Suc p) xs = None"
  proof (rule Cons.IH)
    fix j assume "j \<le> length xs"
    then show "m r None (Suc p + j) (drop j xs) = []"
      using Cons.prems [of "Suc j"] by simp
  qed
  with here show ?case by (simp add: exec_from.simps)
qed

text \<open>\<open>includes_i s w\<close>: \<open>w\<close> occurs in \<open>s\<close> when case is ignored.\<close>

definition includes_i :: "jsstring \<Rightarrow> jsstring \<Rightarrow> bool" where
  "includes_i s w = js_includes (map canon s) (map canon w)"

lemma no_heading_no_match:
  assumes "\<not> includes_i text (js ''Thoughts:'')" "\<not> includes_i text (js ''Key Insights:'')"
    "\<not> includes_i text (js ''Reasoning:'')" "\<not> includes_i text (js ''Approach:'')"
  shows "js_match thoughtsRegex text = None"
  unfolding js_match_def
proof (rule exec_from_None)
  fix j assume j: "j \<le> length text"
  have np: "\<not> prefix (map canon w) (map canon (drop j text))" if "\<not> includes_i text w" for w
    using that j by (auto simp add: includes_i_def js_includes_iff drop_map)
  show "m thoughtsRegex None (0 + j) (drop j text) = []"
    using np [OF assms(1)] np [OF assms(2)] np [OF assms(3)] np [OF assms(4)]
    by (simp add: thoughtsRegex_def m_lit_i)
qed





lemma m_star_lazy_any:
  "m (Star Lazy (Chr any_char)) c p a = map (\<lambda>k. (c, p + k, drop k a)) [0..<Suc (length a)]"
proof (induction a arbitrary: p)
  case Nil
  show ?case by (simp add: m.simps(8))
next
  case (Cons x xs)
  have "m (Star Lazy (Chr any_char)) c p (x # xs)
          = (c, p, x # xs) # m (Star Lazy (Chr any_char)) c (Suc p) xs"
    by (simp add: m.simps(8) [of "Chr any_char" c p "x # xs"] any_char_def)
  also have "\<dots> = (c, p, x # xs) # map (\<lambda>k. (c, Suc p + k, drop k xs)) [0..<Suc (length xs)]"
    by (simp only: Cons.IH)
  also have "\<dots> = map (\<lambda>k. (c, p + k, drop k (x # xs))) (0 # map Suc [0..<Suc (length xs)])"
    by (simp add: comp_def)
  also have "0 # map Suc [0..<Suc (length xs)] = [0..<Suc (length (x # xs))]"
    by (simp add: map_Suc_upt upt_conv_Cons del: upt_Suc)
  finally show ?case .
qed


lemma concat_map_first:
  assumes "k \<le> n" and "\<And>j. j < k \<Longrightarrow> g j = []"
  shows "concat (map g [0..<Suc n]) = g k @ concat (map g [Suc k..<Suc n])"
proof -
  have "[0..<Suc n] = [0..<k] @ [k..<Suc n]"
    using upt_add_eq_append [of 0 k "Suc n - k"] assms(1) by simp
  moreover have "[k..<Suc n] = k # [Suc k..<Suc n]"
    using assms(1) by (simp add: upt_conv_Cons del: upt_Suc)
  ultimately have "[0..<Suc n] = [0..<k] @ k # [Suc k..<Suc n]"
    by simp
  moreover have "concat (map g [0..<k]) = []"
    using assms(2) by simp
  ultimately show ?thesis by simp
qed








lemma exec_from_skip:
  "(\<And>j. j < length pre \<Longrightarrow> m r None (p + j) (drop j (pre @ a)) = []) \<Longrightarrow>
     exec_from r p (pre @ a) = exec_from r (p + length pre) a"
proof (induction pre arbitrary: p)
  case Nil
  show ?case by simp
next
  case (Cons x xs)
  have here: "m r None p ((x # xs) @ a) = []" using Cons.prems [of 0] by simp
  have "exec_from r (Suc p) (xs @ a) = exec_from r (Suc p + length xs) a"
  proof (rule Cons.IH)
    fix j assume "j < length xs"
    then show "m r None (Suc p + j) (drop j (xs @ a)) = []"
      using Cons.prems [of "Suc j"] by simp
  qed
  with here show ?case by (simp add: exec_from.simps [of r p "x # xs @ a"])
qed



section \<open>Code extraction\<close>

lemma m_seq_set:
  "y \<in> set (m (Seq r1 r2) c p a)
     \<longleftrightarrow> (\<exists>c1 p1 a1. (c1, p1, a1) \<in> set (m r1 c p a) \<and> y \<in> set (m r2 c1 p1 a1))"
  by auto












section \<open>Complexity fields\<close>













lemma exec_from_first:
  assumes "\<And>j. j < length pre \<Longrightarrow> m r None (p + j) (drop j (pre @ a)) = []"
    and "m r None (p + length pre) a = (c', p', a') # others"
  shows "exec_from r p (pre @ a)
           = Some \<lparr>index = p + length pre, matched = take (length a - length a') a,
                   group1 = c', rest = a'\<rparr>"
proof -
  have "exec_from r p (pre @ a) = exec_from r (p + length pre) a"
    using assms(1) by (rule exec_from_skip)
  then show ?thesis
    using assms(2) by (simp add: exec_from.simps [of r "p + length pre" a])
qed
















section \<open>Thoughts\<close>

text \<open>
  The four rationale headings. \<open>is_heading h\<close> says that \<open>h\<close> is one of them in any letter
  case, \<open>heading_at s\<close> that \<open>s\<close> starts with one, and \<open>ends_span post\<close> that the span under a
  heading may end before \<open>post\<close>: at the end of the text, or before \<^verbatim>\<open>Time complexity:\<close> in any
  letter case.
\<close>

definition headings :: "jsstring list" where
  "headings = [js ''Thoughts:'', js ''Key Insights:'', js ''Reasoning:'', js ''Approach:'']"

definition is_heading :: "jsstring \<Rightarrow> bool" where
  "is_heading h = (map canon h \<in> set (map (map canon) headings))"

definition heading_at :: "jsstring \<Rightarrow> bool" where
  "heading_at s = list_ex (\<lambda>w. prefix (map canon w) (map canon s)) headings"

definition ends_span :: "jsstring \<Rightarrow> bool" where
  "ends_span post = (post = [] \<or> prefix (map canon (js ''Time complexity:'')) (map canon post))"

lemma thoughtsRegex_unfold:
  "thoughtsRegex =
     Seq (Alt (lit_i (js ''Thoughts:'')) (Alt (lit_i (js ''Key Insights:''))
            (Alt (lit_i (js ''Reasoning:'')) (lit_i (js ''Approach:'')))))
         (Seq (Group (Star Lazy (Chr any_char))) (Alt (lit_i (js ''Time complexity:'')) Eol))"
  by (simp add: thoughtsRegex_def)

lemma no_heading_at: "\<not> heading_at s \<Longrightarrow> m thoughtsRegex c p s = []"
  by (simp add: thoughtsRegex_unfold m_lit_i heading_at_def headings_def)

lemma heading_alternatives:
  assumes "is_heading h"
  shows "m (Alt (lit_i (js ''Thoughts:'')) (Alt (lit_i (js ''Key Insights:''))
            (Alt (lit_i (js ''Reasoning:'')) (lit_i (js ''Approach:''))))) c p (h @ r)
           = [(c, p + length h, r)]"
proof -
  from assms consider "map canon h = map canon (js ''Thoughts:'')"
    | "map canon h = map canon (js ''Key Insights:'')"
    | "map canon h = map canon (js ''Reasoning:'')"
    | "map canon h = map canon (js ''Approach:'')"
    by (auto simp add: is_heading_def headings_def)
  then show ?thesis
  proof cases
    case 1
    then have "length h = length (js ''Thoughts:'')" by (metis length_map)
    with 1 show ?thesis by (simp add: m_lit_i) (simp add: js_def canon_def is_lower_def)
  next
    case 2
    then have "length h = length (js ''Key Insights:'')" by (metis length_map)
    with 2 show ?thesis by (simp add: m_lit_i) (simp add: js_def canon_def is_lower_def)
  next
    case 3
    then have "length h = length (js ''Reasoning:'')" by (metis length_map)
    with 3 show ?thesis by (simp add: m_lit_i) (simp add: js_def canon_def is_lower_def)
  next
    case 4
    then have "length h = length (js ''Approach:'')" by (metis length_map)
    with 4 show ?thesis by (simp add: m_lit_i) (simp add: js_def canon_def is_lower_def)
  qed
qed

lemma m_lazy_until:
  assumes k: "k \<le> length a"
    and before: "\<And>j. j < k \<Longrightarrow> m E (Some (take j a)) (p + j) (drop j a) = []"
    and at: "m E (Some (take k a)) (p + k) (drop k a) = y # ys"
  shows "\<exists>others. m (Seq (Group (Star Lazy (Chr any_char))) E) c p a = y # others"
proof -
  define g where "g = (\<lambda>j. m E (Some (take j a)) (p + j) (drop j a))"
  have grp: "m (Group (Star Lazy (Chr any_char))) c p a
               = map (\<lambda>j. (Some (take j a), p + j, drop j a)) [0..<Suc (length a)]"
    by (simp add: m_star_lazy_any comp_def)
  have "m (Seq (Group (Star Lazy (Chr any_char))) E) c p a = concat (map g [0..<Suc (length a)])"
    by (simp only: m.simps(5) grp) (simp add: comp_def g_def)
  also have "\<dots> = g k @ concat (map g [Suc k..<Suc (length a)])"
    by (rule concat_map_first [OF k]) (simp add: g_def before)
  finally show ?thesis by (simp add: g_def at)
qed

lemma space_not_T: "is_space x \<Longrightarrow> canon x \<noteq> 84"
  by (auto simp add: is_space_def canon_def is_lower_def)

lemma span_end:
  assumes blank: "\<forall>x\<in>set span. is_space x" and stop: "ends_span post"
  shows "\<exists>p' a' others.
           m (Seq (Group (Star Lazy (Chr any_char))) (Alt (lit_i (js ''Time complexity:'')) Eol))
             c p (span @ post) = (Some span, p', a') # others"
proof -
  define E where "E = Alt (lit_i (js ''Time complexity:'')) Eol"
  have before: "m E (Some (take j (span @ post))) (p + j) (drop j (span @ post)) = []"
    if "j < length span" for j
  proof -
    have d: "drop j (span @ post) = (span ! j) # drop (Suc j) span @ post"
      using that by (simp add: Cons_nth_drop_Suc)
    have x: "canon (span ! j) \<noteq> 84" using blank that by (simp add: space_not_T)
    have tc: "map canon (js ''Time complexity:'') = 84 # map canon (js ''ime complexity:'')"
      by (simp add: js_def canon_def is_lower_def)
    show ?thesis
      unfolding d E_def by (simp add: m_lit_i tc x del: append_Cons)
  qed
  have "\<exists>p' a' ys. m E (Some (take (length span) (span @ post))) (p + length span)
                     (drop (length span) (span @ post)) = (Some span, p', a') # ys"
    using stop by (auto simp add: E_def m_lit_i ends_span_def)
  then obtain p' a' ys where at:
    "m E (Some (take (length span) (span @ post))) (p + length span)
       (drop (length span) (span @ post)) = (Some span, p', a') # ys" by blast
  from m_lazy_until [of "length span" "span @ post" E p "(Some span, p', a')" ys c, OF _ before at]
  show ?thesis unfolding E_def by auto
qed

lemma heading_span_match:
  assumes shape: "content = pre @ h @ span @ post"
    and h: "is_heading h"
    and leftmost: "\<forall>j<length pre. \<not> heading_at (drop j content)"
    and blank: "\<forall>x\<in>set span. is_space x"
    and stop: "ends_span post"
  shows "\<exists>mt. js_match thoughtsRegex content = Some mt \<and> group1 mt = Some span"
proof -
  from span_end [OF blank stop, of None "0 + length pre + length h"] obtain p' a' others where
    tl: "m (Seq (Group (Star Lazy (Chr any_char))) (Alt (lit_i (js ''Time complexity:'')) Eol))
           None (0 + length pre + length h) (span @ post) = (Some span, p', a') # others"
    by blast
  have here: "m thoughtsRegex None (0 + length pre) (h @ span @ post) = (Some span, p', a') # others"
    unfolding thoughtsRegex_unfold m.simps(5) heading_alternatives [OF h]
    using tl by simp
  have "exec_from thoughtsRegex 0 (pre @ h @ span @ post)
          = Some \<lparr>index = 0 + length pre,
                  matched = take (length (h @ span @ post) - length a') (h @ span @ post),
                  group1 = Some span, rest = a'\<rparr>"
  proof (rule exec_from_first [OF _ here])
    fix j assume "j < length pre"
    with leftmost have "\<not> heading_at (drop j content)" by simp
    then show "m thoughtsRegex None (0 + j) (drop j (pre @ h @ span @ post)) = []"
      unfolding shape by (rule no_heading_at)
  qed
  then show ?thesis by (simp add: js_match_def shape)
qed

lemma bullet_needs_mark:
  assumes "a = [] \<or> is_space (hd a)"
  shows "m bullet c p a = []"
proof (cases a)
  case Nil
  then show ?thesis by (simp add: bullet_def plus_def)
next
  case (Cons x xs)
  with assms have "is_space x" by simp
  then have "x \<notin> {45, 42, 8226}" "\<not> is_digit x"
    by (auto simp add: is_space_def is_digit_def)
  with Cons show ?thesis by (simp add: bullet_def plus_def)
qed

lemma blank_no_bullet_match:
  assumes "\<forall>x\<in>set a. is_space x"
  shows "m bulletPointsRegex c p a = []"
proof (rule ccontr)
  define A where "A = Alt Bol (Chr (\<lambda>x. x = 10))"
  define W where "W = Star Greedy (Chr is_space)"
  define R where "R = Seq W (Group (Star Greedy (Chr is_dot)))"
  have re: "bulletPointsRegex = Seq A (Seq W (Seq bullet R))"
    by (simp add: bulletPointsRegex_def A_def W_def R_def)
  assume "m bulletPointsRegex c p a \<noteq> []"
  then obtain y where "y \<in> set (m bulletPointsRegex c p a)"
    by (cases "m bulletPointsRegex c p a") auto
  then obtain c1 p1 a1 c2 p2 a2 c3 p3 a3 where
    h1: "(c1, p1, a1) \<in> set (m A c p a)" and
    h2: "(c2, p2, a2) \<in> set (m W c1 p1 a1)" and
    h3: "(c3, p3, a3) \<in> set (m bullet c2 p2 a2)"
    unfolding re m_seq_set by blast
  have "suffix a2 a"
    using m_suffix [OF h1] m_suffix [OF h2] suffix_order.trans by blast
  then have "set a2 \<subseteq> set a" by (auto simp add: suffix_def)
  with assms have "a2 = [] \<or> is_space (hd a2)" by (cases a2) auto
  from bullet_needs_mark [OF this] h3 show False by simp
qed

lemma blank_no_bullets:
  assumes "\<forall>x\<in>set s. is_space x"
  shows "js_match_all bulletPointsRegex s = None"
proof -
  have "exec_from bulletPointsRegex 0 s = None"
  proof (rule exec_from_None)
    fix j assume "j \<le> length s"
    have "\<forall>x\<in>set (drop j s). is_space x" using assms by (auto dest: in_set_dropD)
    then show "m bulletPointsRegex None (0 + j) (drop j s) = []"
      by (rule blank_no_bullet_match)
  qed
  then show ?thesis by (simp add: js_match_all_def match_all.simps)
qed

lemma js_split_subset: "l \<in> set (js_split d s) \<Longrightarrow> set l \<subseteq> set s"
proof (induction s arbitrary: l)
  case Nil
  then show ?case by simp
next
  case (Cons x xs)
  show ?case
  proof (cases "x = d")
    case True
    with Cons.prems Cons.IH show ?thesis by auto
  next
    case False
    show ?thesis
    proof (cases "js_split d xs")
      case Nil
      with False Cons.prems show ?thesis by auto
    next
      case (Cons l' ls)
      with False Cons.prems consider "l = x # l'" | "l \<in> set ls" by auto
      then show ?thesis
      proof cases
        case 1
        have "l' \<in> set (js_split d xs)" by (simp add: Cons)
        from Cons.IH [OF this] 1 show ?thesis by auto
      next
        case 2
        then have "l \<in> set (js_split d xs)" by (simp add: Cons)
        from Cons.IH [OF this] show ?thesis by auto
      qed
    qed
  qed
qed

lemma js_trim_blank: "\<forall>x\<in>set l. is_space x \<Longrightarrow> js_trim l = []"
proof -
  assume "\<forall>x\<in>set l. is_space x"
  then have d: "dropWhile is_space l = []" by simp
  show ?thesis unfolding js_trim_def d by simp
qed

lemma blank_no_lines:
  assumes "\<forall>x\<in>set s. is_space x"
  shows "filter (\<lambda>t. t \<noteq> []) (map js_trim (js_split 10 s)) = []"
proof -
  have "js_trim l = []" if "l \<in> set (js_split 10 s)" for l
    using js_split_subset [OF that] assms by (intro js_trim_blank) auto
  then show ?thesis by (simp add: filter_empty_conv)
qed

lemma blank_span_no_thoughts:
  assumes "js_match thoughtsRegex content = Some mt" and "group1 mt = Some span"
    and "\<forall>x\<in>set span. is_space x"
  shows "extract_thoughts content = []"
  using assms blank_no_bullets [OF assms(3)] blank_no_lines [OF assms(3)]
  by (simp add: extract_thoughts_def)

lemma extract_thoughts_items: "t \<in> set (extract_thoughts content) \<Longrightarrow> t \<noteq> []"
  by (auto simp add: extract_thoughts_def split: option.splits if_splits)

text \<open>
  C8. The \<^verbatim>\<open>thoughts\<close> of the parsed solution are never empty, and none of them is the empty
  string. They are exactly the one default sentence when the text has none of the four
  headings in any letter case, and also when its first heading is followed by nothing but
  white space up to the end of the text or up to the next \<^verbatim>\<open>Time complexity:\<close>: a span
  without list items and without a line that is left non-empty after trimming gives no
  thought of its own.
\<close>

theorem thoughts_never_empty:
  "thoughts (parse_solution content) \<noteq> []
   \<and> (\<forall>t\<in>set (thoughts (parse_solution content)). t \<noteq> [])
   \<and> (\<not> includes_i content (js ''Thoughts:'') \<and> \<not> includes_i content (js ''Key Insights:'')
       \<and> \<not> includes_i content (js ''Reasoning:'') \<and> \<not> includes_i content (js ''Approach:'') \<longrightarrow>
       thoughts (parse_solution content) = [default_thought])
   \<and> (\<forall>pre h span post.
         content = pre @ h @ span @ post \<and> is_heading h
         \<and> (\<forall>j<length pre. \<not> heading_at (drop j content))
         \<and> (\<forall>x\<in>set span. is_space x) \<and> ends_span post \<longrightarrow>
         thoughts (parse_solution content) = [default_thought])"
proof (intro conjI allI impI)
  show "thoughts (parse_solution content) \<noteq> []"
    by (simp add: parse_solution_def Let_def)
  show "\<forall>t\<in>set (thoughts (parse_solution content)). t \<noteq> []"
    using extract_thoughts_items [of _ content]
    by (auto simp add: parse_solution_def Let_def default_thought_def js_def)
next
  assume "\<not> includes_i content (js ''Thoughts:'') \<and> \<not> includes_i content (js ''Key Insights:'')
       \<and> \<not> includes_i content (js ''Reasoning:'') \<and> \<not> includes_i content (js ''Approach:'')"
  then have "js_match thoughtsRegex content = None"
    using no_heading_no_match [of content] by blast
  then show "thoughts (parse_solution content) = [default_thought]"
    by (simp add: parse_solution_def Let_def extract_thoughts_def)
next
  fix pre h span post
  assume a: "content = pre @ h @ span @ post \<and> is_heading h
         \<and> (\<forall>j<length pre. \<not> heading_at (drop j content))
         \<and> (\<forall>x\<in>set span. is_space x) \<and> ends_span post"
  then obtain mt where "js_match thoughtsRegex content = Some mt" "group1 mt = Some span"
    using heading_span_match [of content pre h span post] by blast
  then have "extract_thoughts content = []"
    using a blank_span_no_thoughts by blast
  then show "thoughts (parse_solution content) = [default_thought]"
    by (simp add: parse_solution_def Let_def)
qed

definition example_thoughts_text :: jsstring where
  "example_thoughts_text = js ''Thoughts:'' @ [10] @ js ''- use hashmap''"

definition example_blank_thoughts :: jsstring where
  "example_blank_thoughts =
     js ''Plan. thoughts:'' @ [10, 32, 10] @ js ''Time complexity: O(1)''"

definition example_empty_item :: jsstring where
  "example_empty_item = js ''Thoughts:'' @ [10] @ js ''- '' @ [10]"

theorem thoughts_never_empty_witness:
  "\<not> includes_i (js ''def f(): pass'') (js ''Thoughts:'')
   \<and> \<not> includes_i (js ''def f(): pass'') (js ''Key Insights:'')
   \<and> \<not> includes_i (js ''def f(): pass'') (js ''Reasoning:'')
   \<and> \<not> includes_i (js ''def f(): pass'') (js ''Approach:'')
   \<and> thoughts (parse_solution (js ''def f(): pass'')) = [default_thought]
   \<and> example_blank_thoughts
       = js ''Plan. '' @ js ''thoughts:'' @ [10, 32, 10] @ js ''Time complexity: O(1)''
   \<and> is_heading (js ''thoughts:'')
   \<and> list_all (\<lambda>j. \<not> heading_at (drop j example_blank_thoughts)) [0..<length (js ''Plan. '')]
   \<and> list_all is_space [10, 32, 10]
   \<and> ends_span (js ''Time complexity: O(1)'')
   \<and> thoughts (parse_solution example_blank_thoughts) = [default_thought]
   \<and> thoughts (parse_solution example_thoughts_text) = [js ''use hashmap'']
   \<and> [] \<notin> set (thoughts (parse_solution example_thoughts_text))
   \<and> thoughts (parse_solution example_empty_item) = [default_thought]
   \<and> [] \<notin> set (thoughts (parse_solution example_empty_item))"
proof -
  have h: "\<not> includes_i (js ''def f(): pass'') (js ''Thoughts:'')"
    "\<not> includes_i (js ''def f(): pass'') (js ''Key Insights:'')"
    "\<not> includes_i (js ''def f(): pass'') (js ''Reasoning:'')"
    "\<not> includes_i (js ''def f(): pass'') (js ''Approach:'')"
    by (simp_all add: includes_i_def js_def canon_def is_lower_def)
  have shape: "example_blank_thoughts
                 = js ''Plan. '' @ js ''thoughts:'' @ [10, 32, 10] @ js ''Time complexity: O(1)''"
    by (simp add: example_blank_thoughts_def js_def)
  have ih: "is_heading (js ''thoughts:'')"
    by (simp add: is_heading_def headings_def js_def canon_def is_lower_def)
  have lm: "\<forall>j<length (js ''Plan. ''). \<not> heading_at (drop j example_blank_thoughts)"
    by (simp add: heading_at_def headings_def example_blank_thoughts_def js_def canon_def
          is_lower_def All_less_Suc)
  have bl: "\<forall>x\<in>set [10, 32, 10]. is_space x"
    by (simp add: is_space_def)
  have es: "ends_span (js ''Time complexity: O(1)'')"
    by (simp add: ends_span_def js_def canon_def is_lower_def)
  have ex: "extract_thoughts example_thoughts_text = [js ''use hashmap'']"
    by (simp add: example_thoughts_text_def extract_thoughts_def thoughtsRegex_def
          bulletPointsRegex_def bulletPrefixRegex_def bullet_def js_match_all_def
          match_all.simps js_replace_def regex_eval)
  have ei: "extract_thoughts example_empty_item = []"
    by (simp add: example_empty_item_def extract_thoughts_def thoughtsRegex_def
          bulletPointsRegex_def bulletPrefixRegex_def bullet_def js_match_all_def
          match_all.simps js_replace_def regex_eval)
  have t1: "thoughts (parse_solution example_thoughts_text) = [js ''use hashmap'']"
    by (simp add: parse_solution_def Let_def ex)
  have t2: "thoughts (parse_solution example_empty_item) = [default_thought]"
    by (simp add: parse_solution_def Let_def ei)
  from thoughts_never_empty [of "js ''def f(): pass''"] h
  have n1: "thoughts (parse_solution (js ''def f(): pass'')) = [default_thought]" by blast
  from thoughts_never_empty [of example_blank_thoughts] shape ih lm bl es
  have n2: "thoughts (parse_solution example_blank_thoughts) = [default_thought]" by blast
  from thoughts_never_empty [of example_thoughts_text]
  have n3: "[] \<notin> set (thoughts (parse_solution example_thoughts_text))" by blast
  from thoughts_never_empty [of example_empty_item]
  have n4: "[] \<notin> set (thoughts (parse_solution example_empty_item))" by blast
  have la: "list_all (\<lambda>j. \<not> heading_at (drop j example_blank_thoughts)) [0..<length (js ''Plan. '')]"
    using lm by (simp add: list_all_iff)
  have lb: "list_all is_space [10, 32, 10]"
    using bl by (simp add: list_all_iff)
  show ?thesis
    by (intro conjI h n1 shape ih la lb es n2 t1 n3 t2 n4)
qed

end
